theory Spec2Isabelle
  imports Complex_Main "HOL-Library.Sublist" "HOL-Library.Product_Lexorder"
begin

section \<open>Python values\<close>

text \<open>
  The agents receive claims and contracts parsed from JSON and pass dictionaries to each
  other. A value is \<open>None\<close>, a bool, an int, a float, a string, a list, or a dictionary
  with string keys, kept as an association list in insertion order.

  A float is carried by the text \<open>str()\<close> gives for it (\<open>PFloat ''0.9''\<close>): the agents
  only store, test and print floats, never compute with them.

  A \<open>string\<close> is the UTF-8 text of a Python \<open>str\<close>, so a character of the \<open>str\<close> is one
  byte or a lead byte with its continuation bytes. What the interpreter takes from the
  Unicode character database (the case mappings, the whitespace class, the escapes of
  \<open>repr\<close>) is not part of the agents: it is the parameter \<open>unicode\<close> of every function that
  uses it, and every theorem holds for every value of it.
\<close>

datatype pyval =
    PNone
  | PBool bool
  | PInt int
  | PFloat string
  | PStr string
  | PList "pyval list"
  | PDict "(string \<times> pyval) list"

datatype py_error = AttributeError | TypeError

type_synonym pydict = "(string \<times> pyval) list"

text \<open>Truth value of an object, as \<open>or\<close>, \<open>and\<close>, \<open>not\<close> and \<open>if\<close> take it.\<close>

fun truthy :: "pyval \<Rightarrow> bool" where
  "truthy PNone = False"
| "truthy (PBool b) = b"
| "truthy (PInt n) = (n \<noteq> 0)"
| "truthy (PFloat s) = (s \<noteq> ''0.0'' \<and> s \<noteq> ''-0.0'')"
| "truthy (PStr s) = (s \<noteq> [])"
| "truthy (PList xs) = (xs \<noteq> [])"
| "truthy (PDict d) = (d \<noteq> [])"

text \<open>\<open>x or y\<close>\<close>

definition py_or :: "pyval \<Rightarrow> pyval \<Rightarrow> pyval" where
  "py_or x y = (if truthy x then x else y)"

subsection \<open>Dictionaries\<close>

text \<open>\<open>d.get(k, dflt)\<close> on a dictionary.\<close>

definition dict_get :: "pydict \<Rightarrow> string \<Rightarrow> pyval \<Rightarrow> pyval" where
  "dict_get d k dflt = (case map_of d k of None \<Rightarrow> dflt | Some v \<Rightarrow> v)"

text \<open>\<open>k in d\<close>\<close>

definition dict_has :: "pydict \<Rightarrow> string \<Rightarrow> bool" where
  "dict_has d k = (map_of d k \<noteq> None)"

text \<open>\<open>d[k] = v\<close>, as \<open>{**d, k: v}\<close> places it: an existing key keeps its position.\<close>

fun dict_set :: "string \<Rightarrow> pyval \<Rightarrow> pydict \<Rightarrow> pydict" where
  "dict_set k v [] = [(k, v)]"
| "dict_set k v ((k', v') # d) = (if k' = k then (k, v) # d else (k', v') # dict_set k v d)"

text \<open>
  \<open>x.get(k, dflt)\<close> on any object: only a dictionary has the method, every other value
  raises \<open>AttributeError\<close>.
\<close>

fun py_get :: "pyval \<Rightarrow> string \<Rightarrow> pyval \<Rightarrow> py_error + pyval" where
  "py_get (PDict d) k dflt = Inr (dict_get d k dflt)"
| "py_get _ k dflt = Inl AttributeError"

subsection \<open>Strings\<close>

text \<open>
  The interpreter's text tables: \<open>str.lower\<close> and \<open>str.upper\<close> on a whole string (they
  depend on context and may change the length), \<open>str.isspace\<close> on one character, given by
  its bytes, and \<open>repr\<close> of a string.
\<close>

record unicode =
  str_lower :: "string \<Rightarrow> string"
  str_upper :: "string \<Rightarrow> string"
  char_isspace :: "string \<Rightarrow> bool"
  str_repr :: "string \<Rightarrow> string"

text \<open>
  The characters of a string: a byte \<open>10xxxxxx\<close> continues the character before it, every
  other byte starts one.
\<close>

definition is_continuation :: "char \<Rightarrow> bool" where
  "is_continuation c = (let n = (of_char c :: nat) in 128 \<le> n \<and> n < 192)"

fun chars_aux :: "string \<Rightarrow> string \<Rightarrow> string list" where
  "chars_aux cur [] = (if cur = [] then [] else [cur])"
| "chars_aux cur (c # cs) =
     (if is_continuation c \<and> cur \<noteq> [] then chars_aux (cur @ [c]) cs
      else if cur = [] then chars_aux [c] cs
      else cur # chars_aux [c] cs)"

definition code_points :: "string \<Rightarrow> string list" where
  "code_points s = chars_aux [] s"

text \<open>
  \<open>for c in x\<close>: a list gives its elements, a dictionary its keys, a string its
  characters; \<open>None\<close>, bools and numbers raise \<open>TypeError\<close>.
\<close>

fun py_iter :: "pyval \<Rightarrow> py_error + pyval list" where
  "py_iter (PList xs) = Inr xs"
| "py_iter (PDict d) = Inr (map (\<lambda>kv. PStr (fst kv)) d)"
| "py_iter (PStr s) = Inr (map PStr (code_points s))"
| "py_iter _ = Inl TypeError"

text \<open>\<open>s.lower()\<close> and \<open>s.upper()\<close>\<close>

definition py_lower :: "unicode \<Rightarrow> string \<Rightarrow> string" where
  "py_lower U s = str_lower U s"

definition py_upper :: "unicode \<Rightarrow> string \<Rightarrow> string" where
  "py_upper U s = str_upper U s"

text \<open>\<open>s.strip()\<close>: the whitespace characters at both ends are dropped.\<close>

definition py_strip :: "unicode \<Rightarrow> string \<Rightarrow> string" where
  "py_strip U s =
     concat (rev (dropWhile (char_isspace U) (rev (dropWhile (char_isspace U) (code_points s)))))"

text \<open>\<open>s.split()\<close>: the maximal runs of characters that are not whitespace.\<close>

fun split_aux :: "unicode \<Rightarrow> string \<Rightarrow> string list \<Rightarrow> string list" where
  "split_aux U cur [] = (if cur = [] then [] else [cur])"
| "split_aux U cur (p # ps) =
     (if char_isspace U p then (if cur = [] then split_aux U [] ps else cur # split_aux U [] ps)
      else split_aux U (cur @ p) ps)"

definition py_split :: "unicode \<Rightarrow> string \<Rightarrow> string list" where
  "py_split U s = split_aux U [] (code_points s)"

text \<open>\<open>s.replace("_", " ")\<close>\<close>

definition replace_underscore :: "string \<Rightarrow> string" where
  "replace_underscore s = map (\<lambda>c. if c = CHR ''_'' then CHR '' '' else c) s"

text \<open>\<open>a in c\<close> on strings: \<open>a\<close> occurs in \<open>c\<close> as a contiguous piece.\<close>

fun py_in_str :: "string \<Rightarrow> string \<Rightarrow> bool" where
  "py_in_str a [] = (a = [])"
| "py_in_str a (y # ys) = (prefix a (y # ys) \<or> py_in_str a ys)"

text \<open>\<open>sep.join(xs)\<close>\<close>

fun py_join :: "string \<Rightarrow> string list \<Rightarrow> string" where
  "py_join sep [] = []"
| "py_join sep [x] = x"
| "py_join sep (x # y # ys) = x @ sep @ py_join sep (y # ys)"

text \<open>
  A method of \<open>str\<close> (\<open>strip\<close>, \<open>lower\<close>, \<open>upper\<close>) called on an object: the string itself,
  or \<open>AttributeError\<close> for every other value.
\<close>

fun as_str :: "pyval \<Rightarrow> py_error + string" where
  "as_str (PStr s) = Inr s"
| "as_str _ = Inl AttributeError"

subsection \<open>\<open>str()\<close> and \<open>repr()\<close>\<close>

definition digit_char :: "nat \<Rightarrow> char" where
  "digit_char d = ''0123456789'' ! d"

fun nat_digits :: "nat \<Rightarrow> string" where
  "nat_digits n = (if n < 10 then [digit_char n] else nat_digits (n div 10) @ [digit_char (n mod 10)])"

definition int_str :: "int \<Rightarrow> string" where
  "int_str i = (if i < 0 then CHR ''-'' # nat_digits (nat (- i)) else nat_digits (nat i))"

primrec py_repr :: "unicode \<Rightarrow> pyval \<Rightarrow> string" where
  "py_repr U PNone = ''None''"
| "py_repr U (PBool b) = (if b then ''True'' else ''False'')"
| "py_repr U (PInt i) = int_str i"
| "py_repr U (PFloat s) = s"
| "py_repr U (PStr s) = str_repr U s"
| "py_repr U (PList xs) = ''['' @ py_join '', '' (map (py_repr U) xs) @ '']''"
| "py_repr U (PDict d) =
     ''{'' @ py_join '', '' (map (\<lambda>kv. str_repr U (fst kv) @ '': '' @ snd kv) (map (map_prod id (py_repr U)) d)) @ ''}''"

text \<open>\<open>str(x)\<close>, which is also what an f-string puts in for \<open>{x}\<close>.\<close>

definition py_str :: "unicode \<Rightarrow> pyval \<Rightarrow> string" where
  "py_str U x = (case x of PStr s \<Rightarrow> s | _ \<Rightarrow> py_repr U x)"

subsection \<open>The tables on the ASCII range\<close>

text \<open>
  On text made of ASCII characters the interpreter's tables are these. They are the
  instance \<open>ascii_tables\<close> with which the functions are evaluated on sample inputs, and
  \<open>ascii_conform\<close> says of a value of \<open>unicode\<close> that it agrees with them on ASCII text,
  as the interpreter's own tables do.
\<close>

definition whitespace :: string where
  "whitespace =
     [CHR 0x09, CHR 0x0A, CHR 0x0B, CHR 0x0C, CHR 0x0D, CHR 0x1C, CHR 0x1D, CHR 0x1E, CHR 0x1F,
      CHR 0x20]"

definition ascii_upper :: string where
  "ascii_upper = ''ABCDEFGHIJKLMNOPQRSTUVWXYZ''"

definition ascii_lower :: string where
  "ascii_lower = ''abcdefghijklmnopqrstuvwxyz''"

definition lower_char :: "char \<Rightarrow> char" where
  "lower_char c = (case map_of (zip ascii_upper ascii_lower) c of Some l \<Rightarrow> l | None \<Rightarrow> c)"

definition upper_char :: "char \<Rightarrow> char" where
  "upper_char c = (case map_of (zip ascii_lower ascii_upper) c of Some u \<Rightarrow> u | None \<Rightarrow> c)"

definition hex_char :: "nat \<Rightarrow> char" where
  "hex_char d = ''0123456789abcdef'' ! d"

text \<open>
  One ASCII character inside \<open>repr\<close> of a string whose quote is \<open>q\<close>: the quote and the backslash
  get a backslash, tab, line feed and carriage return their letter, the other control
  characters \<open>\xNN\<close>.
\<close>

definition ascii_repr_char :: "char \<Rightarrow> char \<Rightarrow> string" where
  "ascii_repr_char q c =
     (let n = (of_char c :: nat) in
      if c = q \<or> c = CHR 0x5C then [CHR 0x5C, c]
      else if n = 9 then [CHR 0x5C, CHR ''t'']
      else if n = 10 then [CHR 0x5C, CHR ''n'']
      else if n = 13 then [CHR 0x5C, CHR ''r'']
      else if n < 32 \<or> n = 127 then [CHR 0x5C, CHR ''x'', hex_char (n div 16), hex_char (n mod 16)]
      else [c])"

text \<open>The quote is the apostrophe, unless the string holds one and no double quote.\<close>

definition ascii_repr :: "string \<Rightarrow> string" where
  "ascii_repr s =
     (let q = (if CHR 0x27 \<in> set s \<and> CHR 0x22 \<notin> set s then CHR 0x22 else CHR 0x27)
      in [q] @ concat (map (ascii_repr_char q) s) @ [q])"

definition ascii_tables :: unicode where
  "ascii_tables =
     \<lparr>str_lower = map lower_char,
      str_upper = map upper_char,
      char_isspace = (\<lambda>p. case p of [c] \<Rightarrow> c \<in> set whitespace | _ \<Rightarrow> False),
      str_repr = ascii_repr\<rparr>"

definition is_ascii :: "string \<Rightarrow> bool" where
  "is_ascii s = (\<forall>c \<in> set s. (of_char c :: nat) < 128)"

definition ascii_conform :: "unicode \<Rightarrow> bool" where
  "ascii_conform U =
     ((\<forall>s. is_ascii s \<longrightarrow>
          str_lower U s = map lower_char s \<and> str_upper U s = map upper_char s
          \<and> str_repr U s = ascii_repr s)
      \<and> (\<forall>c. (of_char c :: nat) < 128 \<longrightarrow> char_isspace U [c] = (c \<in> set whitespace)))"

text \<open>\<open>strip\<close> and \<open>split\<close> of ASCII text, character by character.\<close>

definition ascii_strip :: "string \<Rightarrow> string" where
  "ascii_strip s =
     rev (dropWhile (\<lambda>c. c \<in> set whitespace) (rev (dropWhile (\<lambda>c. c \<in> set whitespace) s)))"

fun ascii_split_aux :: "string \<Rightarrow> string \<Rightarrow> string list" where
  "ascii_split_aux cur [] = (if cur = [] then [] else [cur])"
| "ascii_split_aux cur (c # cs) =
     (if c \<in> set whitespace
      then (if cur = [] then ascii_split_aux [] cs else cur # ascii_split_aux [] cs)
      else ascii_split_aux (cur @ [c]) cs)"

text \<open>A list comprehension whose body may raise stops at the first element that does.\<close>

fun map_err :: "('a \<Rightarrow> py_error + 'b) \<Rightarrow> 'a list \<Rightarrow> py_error + 'b list" where
  "map_err f [] = Inr []"
| "map_err f (x # xs) =
     (case f x of Inl e \<Rightarrow> Inl e
      | Inr y \<Rightarrow> (case map_err f xs of Inl e \<Rightarrow> Inl e | Inr ys \<Rightarrow> Inr (y # ys)))"

text \<open>Sequencing of steps that may raise: the first error ends the computation.\<close>

definition bind_err :: "py_error + 'a \<Rightarrow> ('a \<Rightarrow> py_error + 'b) \<Rightarrow> py_error + 'b" where
  "bind_err m f = (case m of Inl e \<Rightarrow> Inl e | Inr x \<Rightarrow> f x)"

section \<open>Bundled match: \<open>agents/bundled_match.py\<close>\<close>

definition SERVICE_SYNONYMS :: "(string \<times> string list) list" where
  "SERVICE_SYNONYMS =
     [(''physical therapy'',
        [''pt'', ''pt rehab'', ''therapy'', ''rehab'', ''physiotherapy'', ''post-op rehab'']),
      (''influenza vaccine'',
        [''flu shot'', ''flu vaccine'', ''influenza immunization''])]"

definition tokens :: "unicode \<Rightarrow> string \<Rightarrow> string list" where
  "tokens U s = filter (\<lambda>t. t \<noteq> []) (py_split U (replace_underscore (py_lower U s)))"

text \<open>
  The alias set built for a non-empty label \<open>s\<close>: the label, and every synonym group it
  belongs to. The source keeps a set; only membership is used, so a list stands for it.
\<close>

definition aliases_of :: "string \<Rightarrow> string list" where
  "aliases_of s =
     s # concat (map (\<lambda>(base, syns). if s = base \<or> s \<in> set syns then base # syns else [])
                     SERVICE_SYNONYMS)"

text \<open>The test of the inner loop, for one alias \<open>a\<close> and one covered label \<open>c\<close>.\<close>

definition alias_hits :: "unicode \<Rightarrow> string \<Rightarrow> string \<Rightarrow> bool" where
  "alias_hits U a c = (py_in_str a c \<or> py_in_str c a \<or> set (tokens U a) \<inter> set (tokens U c) \<noteq> {})"

text \<open>\<open>str(c or "").strip().lower()\<close>\<close>

definition norm_covered :: "unicode \<Rightarrow> pyval \<Rightarrow> string" where
  "norm_covered U c = py_lower U (py_strip U (py_str U (py_or c (PStr []))))"

definition service_in_bundle :: "unicode \<Rightarrow> string \<Rightarrow> pyval \<Rightarrow> py_error + (bool \<times> string list)" where
  "service_in_bundle U service covered =
     (let s = py_lower U (py_strip U service) in
      if s = [] then Inr (False, [])
      else
        let aliases = aliases_of s in
        bind_err (py_iter covered) (\<lambda>cs.
          let covered_norm = map (norm_covered U) cs;
              matched = filter (\<lambda>c. \<exists>a \<in> set aliases. alias_hits U a c) covered_norm
          in Inr (length matched > 0, matched)))"

definition match_prompt :: string where
  "match_prompt =
     ''Compare the submitted claim'' @ [CHR 0xE2, CHR 0x80, CHR 0x99] @
     ''s service and CPT against the bundled payment contract. '' @
     ''Determine if this claim'' @ [CHR 0xE2, CHR 0x80, CHR 0x99] @
     ''s service is already covered under an active episode '' @
     ''(e.g., post'' @ [CHR 0xE2, CHR 0x80, CHR 0x91] @
     ''op physical therapy after a knee surgery) and capture matching evidence.''"

definition evaluate_against_contract :: "unicode \<Rightarrow> pyval \<Rightarrow> pyval \<Rightarrow> py_error + pyval" where
  "evaluate_against_contract U pt_claim contract =
     bind_err (py_get contract ''plan'' (PDict [])) (\<lambda>plan.
     bind_err (py_get contract ''provider_agreement'' (PDict [])) (\<lambda>prov.
     bind_err (py_get contract ''episode'' (PDict [])) (\<lambda>ep.
     bind_err (py_get plan ''payer'' (PStr [])) (\<lambda>plan_name.
     bind_err (py_get plan ''plan_id'' (PStr [])) (\<lambda>plan_id.
     bind_err (py_get plan ''product_type'' (PStr [])) (\<lambda>product_type.
     bind_err (py_get prov ''provider_contract_id'' (PStr ''UNKNOWN'')) (\<lambda>contract_id.
     bind_err (py_get ep ''episode_code'' (PStr [])) (\<lambda>episode_code.
     bind_err (py_get ep ''covered_services'' (PList [])) (\<lambda>cs0.
     let covered_services = py_or cs0 (PList []) in
     bind_err (py_get ep ''covered_cpts'' (PList [])) (\<lambda>cc0.
     bind_err (py_iter (py_or cc0 (PList []))) (\<lambda>ccs.
     let covered_cpts = map (py_str U) ccs in
     bind_err (py_get pt_claim ''service'' PNone) (\<lambda>sv.
     bind_err (as_str (py_or sv (PStr []))) (\<lambda>s0.
     let service = py_lower U (py_strip U s0) in
     bind_err (py_get pt_claim ''cpt'' PNone) (\<lambda>cp.
     let cpt = py_str U (py_or cp (PStr []));
         cpt_in = (cpt \<noteq> [] \<and> cpt \<in> set covered_cpts) in
     bind_err (service_in_bundle U service covered_services) (\<lambda>(svc_in, svc_matched).
     let is_in = (cpt_in \<or> svc_in);
         matched_terms = svc_matched @ (if cpt_in then [cpt] else []);
         parsed =
           [(''status'', PStr ''ok''),
            (''plan_name'', plan_name),
            (''plan_id'', plan_id),
            (''product_type'', product_type),
            (''contract_id'', contract_id),
            (''episode_code'', episode_code),
            (''service'', PStr service),
            (''cpt'', PStr cpt),
            (''is_in_bundle'', PBool is_in),
            (''matched_terms'', PList (map PStr matched_terms)),
            (''evidence'', PStr (''Matched by CPT or service under '' @ py_str U episode_code @ ''.'')),
            (''debug'', PDict
              [(''covered_services'', covered_services),
               (''covered_cpts'', PList (map PStr covered_cpts)),
               (''svc_match'', PBool svc_in),
               (''cpt_match'', PBool cpt_in),
               (''svc_matched_terms'', PList (map PStr svc_matched))])];
         trace =
           [(''system_prompt'', PStr match_prompt),
            (''user_input'', PDict
              [(''claim'', PDict [(''service'', PStr service), (''cpt'', PStr cpt)]),
               (''contract'', PDict
                 [(''plan'', PDict
                    [(''payer'', plan_name), (''plan_id'', plan_id), (''product_type'', product_type)]),
                  (''provider_agreement'', PDict [(''provider_contract_id'', contract_id)]),
                  (''episode'', PDict
                    [(''episode_code'', episode_code),
                     (''covered_services'', covered_services),
                     (''covered_cpts'', PList (map PStr covered_cpts))])])]),
            (''model_output'', PStr ''Deterministic match; no model output.''),
            (''parsed'', PDict parsed)]
     in Inr (PDict (dict_set ''trace'' (PDict trace) parsed)))))))))))))))))"

definition no_contracts_prompt :: string where
  "no_contracts_prompt =
     ''Compare the submitted claim'' @ [CHR 0xE2, CHR 0x80, CHR 0x99] @
     ''s service and CPT against the bundled payment contract. '' @
     ''Determine if the claim is part of an active episode and capture matching evidence.''"

definition no_contracts_result :: "pyval \<Rightarrow> pyval" where
  "no_contracts_result pt_claim =
     (let parsed =
            [(''status'', PStr ''error''),
             (''reason'', PStr ''no_contracts''),
             (''is_in_bundle'', PBool False),
             (''contract_id'', PStr ''UNKNOWN''),
             (''matched_terms'', PList []),
             (''evidence'', PStr ''No contracts supplied.'')];
          trace =
            [(''system_prompt'', PStr no_contracts_prompt),
             (''user_input'', PDict
               [(''claim'', pt_claim), (''contracts'', PStr [CHR 0xE2, CHR 0x88, CHR 0x85])]),
             (''model_output'', PStr ''No contracts available to evaluate.''),
             (''parsed'', PDict parsed)]
      in PDict (dict_set ''trace'' (PDict trace) parsed))"

text \<open>
  The sort key \<open>(r.get("is_in_bundle", False), len(r.get("matched_terms", [])))\<close>. Every
  element of \<open>results\<close> is a result of \<open>evaluate_against_contract\<close>, whose \<open>is_in_bundle\<close>
  is a bool and whose \<open>matched_terms\<close> is a list, so the key is a pair of a bool and a
  length, compared lexicographically with \<open>False < True\<close>.
\<close>

definition in_bundle_of :: "pyval \<Rightarrow> bool" where
  "in_bundle_of r = (case r of PDict d \<Rightarrow> truthy (dict_get d ''is_in_bundle'' (PBool False)) | _ \<Rightarrow> False)"

definition n_matched_of :: "pyval \<Rightarrow> nat" where
  "n_matched_of r =
     (case r of PDict d \<Rightarrow> (case dict_get d ''matched_terms'' (PList []) of PList ts \<Rightarrow> length ts | _ \<Rightarrow> 0)
      | _ \<Rightarrow> 0)"

definition rank_key :: "pyval \<Rightarrow> bool \<times> nat" where
  "rank_key r = (in_bundle_of r, n_matched_of r)"

text \<open>
  \<open>xs.sort(key=f, reverse=True)\<close>: the list is reversed, sorted by a stable ascending
  sort, and reversed again, so that elements with equal keys keep their order.
\<close>

definition sort_reverse :: "('a \<Rightarrow> 'k::linorder) \<Rightarrow> 'a list \<Rightarrow> 'a list" where
  "sort_reverse f xs = rev (sort_key f (rev xs))"

text \<open>The part of \<open>bundled_match_agent\<close> after \<open>results\<close> is built.\<close>

definition pick_best :: "pyval \<Rightarrow> pyval list \<Rightarrow> pyval" where
  "pick_best pt_claim results =
     (if results = [] then no_contracts_result pt_claim
      else hd (sort_reverse rank_key results))"

definition bundled_match_agent :: "unicode \<Rightarrow> pyval \<Rightarrow> pyval \<Rightarrow> py_error + pyval" where
  "bundled_match_agent U pt_claim contracts =
     (case contracts of
        PDict d \<Rightarrow>
          if dict_has d ''contract_id'' then evaluate_against_contract U pt_claim contracts
          else bind_err (map_err (evaluate_against_contract U pt_claim) (map snd d))
                 (\<lambda>results. Inr (pick_best pt_claim results))
      | _ \<Rightarrow>
          bind_err (py_iter (py_or contracts (PList []))) (\<lambda>cs.
          bind_err (map_err (evaluate_against_contract U pt_claim) cs)
                 (\<lambda>results. Inr (pick_best pt_claim results))))"

section \<open>Recommendation: \<open>agents/recommendation.py\<close>\<close>

definition reco_prompt :: string where
  "reco_prompt =
     ''Based on the bundled match result, decide whether to PAY, REJECT, or DENY the claim. '' @
     ''Provide a clear reason, citing contract terms and supporting evidence, so the decision '' @
     ''can be reviewed by providers and internal audit teams.''"

definition recommendation_agent :: "pyval \<Rightarrow> pyval \<Rightarrow> py_error + pyval" where
  "recommendation_agent claim match =
     bind_err (py_get match ''status'' PNone) (\<lambda>status.
     bind_err (py_get match ''is_in_bundle'' PNone) (\<lambda>is_in_bundle.
     bind_err (py_get match ''evidence'' PNone) (\<lambda>evidence.
     bind_err (py_get match ''matched_terms'' (PList [])) (\<lambda>matched_terms.
     bind_err (py_get match ''contract_id'' PNone) (\<lambda>contract_id.
     bind_err (py_get match ''plan_id'' PNone) (\<lambda>plan_id.
     bind_err (py_get match ''plan_name'' PNone) (\<lambda>plan_name.
     bind_err (py_get match ''product_type'' PNone) (\<lambda>product_type.
     bind_err (py_get match ''episode_code'' PNone) (\<lambda>episode_code.
     let parsed =
           (if status = PStr ''skipped'' then
              [(''decision'', PStr ''PAY''),
               (''reason'', PStr ''No applicable bundled episode for this plan/claim.''),
               (''evidence'', evidence),
               (''matched_terms'', PList []),
               (''contract_id'', contract_id),
               (''plan_id'', plan_id),
               (''plan_name'', plan_name),
               (''product_type'', product_type),
               (''episode_code'', episode_code),
               (''trace'', PDict [(''bundled_match'', match)]),
               (''confidence'', PFloat ''0.9'')]
            else if truthy is_in_bundle then
              [(''decision'', PStr ''REJECT''),
               (''reason'', PStr ''Service included in the episode bundle; bill under the episode.''),
               (''evidence'', evidence),
               (''matched_terms'', matched_terms),
               (''contract_id'', contract_id),
               (''plan_id'', plan_id),
               (''plan_name'', plan_name),
               (''product_type'', product_type),
               (''episode_code'', episode_code),
               (''trace'', PDict [(''bundled_match'', match)]),
               (''confidence'', PFloat ''0.9'')]
            else
              [(''decision'', PStr ''PAY''),
               (''reason'', PStr ''Service not included in covered bundle terms.''),
               (''evidence'', evidence),
               (''matched_terms'', matched_terms),
               (''contract_id'', contract_id),
               (''plan_id'', plan_id),
               (''plan_name'', plan_name),
               (''product_type'', product_type),
               (''episode_code'', episode_code),
               (''trace'', PDict [(''bundled_match'', match)]),
               (''confidence'', PFloat ''0.9'')]);
         trace =
           [(''system_prompt'', PStr reco_prompt),
            (''user_input'', PDict [(''claim'', claim), (''bundled_match'', match)]),
            (''model_output'', PStr ''Policy decision; no model output.''),
            (''parsed'', PDict parsed)]
     in Inr (PDict (dict_set ''trace'' (PDict trace) parsed)))))))))))"

text \<open>
  All the reads above are \<open>match.get(...)\<close> on the same object, so they raise together or
  not at all, and reading them once before the branch gives what the source computes.
\<close>

section \<open>Provider response: \<open>agents/provider_response.py\<close>\<close>

definition VALID :: "string list" where
  "VALID = [''PAY'', ''REJECT'', ''DENY'', ''ADJUST'']"

definition list_to_english :: "unicode \<Rightarrow> pyval \<Rightarrow> py_error + string" where
  "list_to_english U items0 =
     bind_err (py_iter (py_or items0 (PList []))) (\<lambda>xs.
     let items = map (py_str U) (filter (\<lambda>i. py_strip U (py_str U i) \<noteq> []) xs) in
     if items = [] then Inr []
     else if length items = 1 then Inr (hd items)
     else Inr (py_join '', '' (butlast items) @ '', and '' @ last items))"

definition response_prompt :: string where
  "response_prompt =
     ''Draft a professional, easy'' @ [CHR 0xE2, CHR 0x80, CHR 0x91] @ ''to'' @
     [CHR 0xE2, CHR 0x80, CHR 0x91] @ ''understand message for the provider explaining the '' @
     ''decision. Include contract references, matched service/CPT, and guidance for '' @
     ''future submissions.''"

text \<open>
  \<open>decision or reco.get("decision") or reco.get("outcome") or ""\<close>: an operand is
  evaluated only when the ones before it are falsy.
\<close>

definition raw_decision :: "pyval \<Rightarrow> pyval \<Rightarrow> py_error + pyval" where
  "raw_decision reco decision =
     (if truthy decision then Inr decision
      else bind_err (py_get reco ''decision'' PNone) (\<lambda>d1.
           if truthy d1 then Inr d1
           else bind_err (py_get reco ''outcome'' PNone) (\<lambda>d2.
                Inr (py_or d2 (PStr [])))))"

definition invalid_decision_result :: "pyval \<Rightarrow> string \<Rightarrow> pyval" where
  "invalid_decision_result reco decision =
     (let message =
            PStr ''Recommendation did not include a valid decision (PAY/REJECT/DENY/ADJUST).'';
          parsed =
            [(''status'', PStr ''error''),
             (''reason'', PStr ''missing_or_invalid_decision''),
             (''message'', message),
             (''decision'', if decision \<noteq> [] then PStr decision else PNone),
             (''reco'', reco)];
          trace =
            [(''system_prompt'', PStr response_prompt),
             (''user_input'', reco),
             (''model_output'', dict_get parsed ''message'' PNone),
             (''parsed'', PDict parsed)]
      in PDict (dict_set ''trace'' (PDict trace) parsed))"

definition draft_pay :: "string \<Rightarrow> string \<Rightarrow> string \<Rightarrow> string \<Rightarrow> string \<Rightarrow> string" where
  "draft_pay plan_name product plan_id short_reason ev =
     ''Approved for payment. The billed service is not part of the bundled coverage '' @
     ''defined under '' @ plan_name @ '' '' @ product @ '' (Plan '' @ plan_id @ ''). '' @
     (if short_reason \<noteq> [] then short_reason @ '' '' else []) @
     (if ev \<noteq> [] then ''Supporting note: '' @ ev else [])"

definition draft_reject ::
  "string \<Rightarrow> string \<Rightarrow> string \<Rightarrow> string \<Rightarrow> string \<Rightarrow> string \<Rightarrow> string \<Rightarrow> string" where
  "draft_reject episode_code plan_name product plan_id contract_id terms ev =
     ''This claim has been denied because the billed service is included in '' @ episode_code @ '' '' @
     ''under '' @ plan_name @ '' '' @ product @ '' (Plan '' @ plan_id @
       '') and provider agreement '' @ contract_id @ ''. '' @
     ''Per contract terms, services that are part of the episode should not be billed separately. '' @
     ''Please bill this service under the episode claim or submit a corrected claim.'' @
     (if terms \<noteq> [] then '' Matched bundle terms/CPTs: '' @ terms @ ''.'' else []) @
     (if ev \<noteq> [] then '' Supporting note: '' @ ev else [])"

definition draft_adjust :: "string \<Rightarrow> string \<Rightarrow> string \<Rightarrow> string \<Rightarrow> string \<Rightarrow> string" where
  "draft_adjust episode_code plan_name plan_id terms ev =
     ''This service falls under '' @ episode_code @ '' for '' @ plan_name @
       '' (Plan '' @ plan_id @ ''). '' @
     ''The claim will be adjusted per contract terms and allowed amounts for the bundled episode.'' @
     (if terms \<noteq> [] then '' Relevant matched terms/CPTs: '' @ terms @ ''.'' else []) @
     (if ev \<noteq> [] then '' Supporting note: '' @ ev else [])"

definition provider_response_agent :: "unicode \<Rightarrow> pyval \<Rightarrow> pyval \<Rightarrow> py_error + pyval" where
  "provider_response_agent U reco decision0 =
     bind_err (raw_decision reco decision0) (\<lambda>raw.
     bind_err (as_str raw) (\<lambda>s.
     let decision = py_upper U s in
     if decision \<notin> set VALID then Inr (invalid_decision_result reco decision)
     else
     bind_err (py_get reco ''plan_name'' PNone) (\<lambda>v1.
     let plan_name = py_str U (py_or v1 (PStr (''the member'' @ [CHR 0x27] @ ''s health plan''))) in
     bind_err (py_get reco ''plan_id'' PNone) (\<lambda>v2.
     let plan_id = py_str U (py_or v2 (PStr (''the member'' @ [CHR 0xE2, CHR 0x80, CHR 0x99] @ ''s plan''))) in
     bind_err (py_get reco ''product_type'' PNone) (\<lambda>v3.
     let product = py_str U (py_or v3 (PStr ''PPO'')) in
     bind_err (py_get reco ''episode_code'' PNone) (\<lambda>v4.
     let episode_code = py_str U (py_or v4 (PStr ''the bundled episode'')) in
     bind_err (py_get reco ''contract_id'' PNone) (\<lambda>v5.
     let contract_id = py_str U (py_or v5 (PStr ''the applicable provider agreement'')) in
     bind_err (py_get reco ''evidence'' PNone) (\<lambda>v6.
     bind_err (as_str (py_or v6 (PStr []))) (\<lambda>ev0.
     let ev = py_strip U ev0 in
     bind_err (py_get reco ''matched_terms'' (PList [])) (\<lambda>v7.
     bind_err (list_to_english U v7) (\<lambda>terms.
     bind_err (py_get reco ''reason'' PNone) (\<lambda>v8.
     bind_err (as_str (py_or v8 (PStr []))) (\<lambda>r0.
     let short_reason = py_strip U r0;
         (draft, next_action) =
           (if decision = ''PAY'' then
              (draft_pay plan_name product plan_id short_reason ev,
               ''Queue for payment and notify provider of approval.'')
            else if decision \<in> {''REJECT'', ''DENY''} then
              (draft_reject episode_code plan_name product plan_id contract_id terms ev,
               ''Return claim to provider with denial explanation and contract reference. '' @
               ''Advise resubmission under the bundled episode (or corrected billing).'')
            else
              (draft_adjust episode_code plan_name plan_id terms ev,
               ''Apply contract adjustment and notify provider of revised allowed amount.''));
         parsed =
           [(''status'', PStr ''ok''),
            (''decision'', PStr decision),
            (''draft'', PStr draft),
            (''next_action'', PStr next_action)];
         trace =
           [(''system_prompt'', PStr response_prompt),
            (''user_input'', reco),
            (''model_output'', PStr draft),
            (''parsed'', PDict parsed)]
     in Inr (PDict (dict_set ''trace'' (PDict trace) parsed)))))))))))))))"

section \<open>Reading inputs and results\<close>

text \<open>
  \<open>res[k]\<close> on what an agent returned: the entry of the returned dictionary, or the error
  the agent raised.
\<close>

definition result_field :: "string \<Rightarrow> py_error + pyval \<Rightarrow> py_error + pyval" where
  "result_field k res = bind_err res (\<lambda>r. py_get r k PNone)"

definition returns :: "py_error + 'a \<Rightarrow> bool" where
  "returns res = (case res of Inr r \<Rightarrow> True | Inl e \<Rightarrow> False)"

text \<open>
  The claim's fields as \<open>evaluate_against_contract\<close> derives them:
  \<open>str(pt_claim.get("cpt") or "")\<close> and \<open>(pt_claim.get("service") or "").strip().lower()\<close>.
\<close>

definition claim_cpt :: "unicode \<Rightarrow> pyval \<Rightarrow> string" where
  "claim_cpt U claim =
     (case claim of PDict cl \<Rightarrow> py_str U (py_or (dict_get cl ''cpt'' PNone) (PStr [])) | _ \<Rightarrow> [])"

definition claim_service :: "unicode \<Rightarrow> pyval \<Rightarrow> string" where
  "claim_service U claim =
     (case claim of
        PDict cl \<Rightarrow>
          (case py_or (dict_get cl ''service'' PNone) (PStr []) of
             PStr s \<Rightarrow> py_lower U (py_strip U s) | _ \<Rightarrow> [])
      | _ \<Rightarrow> [])"

text \<open>
  The label \<open>_service_in_bundle\<close> matches with: it trims and lower-cases, once more, the
  service it is given.
\<close>

definition match_label :: "unicode \<Rightarrow> pyval \<Rightarrow> string" where
  "match_label U claim = py_lower U (py_strip U (claim_service U claim))"

text \<open>A section of the contract, \<open>contract.get(name, {})\<close>.\<close>

definition section_of :: "pyval \<Rightarrow> string \<Rightarrow> pyval" where
  "section_of contract name =
     (case contract of PDict k \<Rightarrow> dict_get k name (PDict []) | _ \<Rightarrow> PDict [])"

text \<open>A covered list of the episode, \<open>ep.get(key, []) or []\<close>.\<close>

definition covered_raw :: "pyval \<Rightarrow> string \<Rightarrow> pyval" where
  "covered_raw contract key =
     (case section_of contract ''episode'' of
        PDict ep \<Rightarrow> py_or (dict_get ep key (PList [])) (PList [])
      | _ \<Rightarrow> PList [])"

definition elements_of :: "pyval \<Rightarrow> pyval list" where
  "elements_of v = (case py_iter v of Inr xs \<Rightarrow> xs | Inl e \<Rightarrow> [])"

text \<open>The covered CPT codes coerced to strings, and the normalized covered labels.\<close>

definition covered_cpts_of :: "unicode \<Rightarrow> pyval \<Rightarrow> string list" where
  "covered_cpts_of U contract = map (py_str U) (elements_of (covered_raw contract ''covered_cpts''))"

definition covered_labels_of :: "unicode \<Rightarrow> pyval \<Rightarrow> string list" where
  "covered_labels_of U contract =
     map (norm_covered U) (elements_of (covered_raw contract ''covered_services''))"

text \<open>The CPT test, \<open>bool(cpt and cpt in covered_cpts)\<close>.\<close>

definition cpt_hit :: "unicode \<Rightarrow> pyval \<Rightarrow> pyval \<Rightarrow> bool" where
  "cpt_hit U claim contract = (claim_cpt U claim \<noteq> [] \<and> claim_cpt U claim \<in> set (covered_cpts_of U contract))"

text \<open>The covered labels \<open>_service_in_bundle\<close> collects for the normalized label \<open>s\<close>.\<close>

definition svc_matched_of :: "unicode \<Rightarrow> string \<Rightarrow> string list \<Rightarrow> string list" where
  "svc_matched_of U s labels =
     (if s = [] then [] else filter (\<lambda>c. \<exists>a \<in> set (aliases_of s). alias_hits U a c) labels)"

text \<open>
  The inputs on which \<open>evaluate_against_contract\<close> raises nothing: claim and contract are
  dictionaries, each section of the contract is absent or a dictionary, \<open>covered_cpts\<close> can
  be iterated, the claim's \<open>service\<close> is falsy or a string, and \<open>covered_services\<close> can be
  iterated unless the service label is empty.
\<close>

definition is_dict :: "pyval \<Rightarrow> bool" where
  "is_dict v = (case v of PDict d \<Rightarrow> True | _ \<Rightarrow> False)"

definition dict_of :: "pyval \<Rightarrow> pydict" where
  "dict_of v = (case v of PDict d \<Rightarrow> d | _ \<Rightarrow> [])"

definition iterable :: "pyval \<Rightarrow> bool" where
  "iterable v = returns (py_iter v)"

definition service_is_text :: "pyval \<Rightarrow> bool" where
  "service_is_text claim =
     (case claim of
        PDict cl \<Rightarrow> returns (as_str (py_or (dict_get cl ''service'' PNone) (PStr [])))
      | _ \<Rightarrow> False)"

definition well_shaped :: "unicode \<Rightarrow> pyval \<Rightarrow> pyval \<Rightarrow> bool" where
  "well_shaped U claim contract =
     (is_dict claim \<and> is_dict contract
      \<and> is_dict (section_of contract ''plan'')
      \<and> is_dict (section_of contract ''provider_agreement'')
      \<and> is_dict (section_of contract ''episode'')
      \<and> iterable (covered_raw contract ''covered_cpts'')
      \<and> service_is_text claim
      \<and> (match_label U claim = [] \<or> iterable (covered_raw contract ''covered_services'')))"

text \<open>
  The ranking of the Selector, in the words of its rule and read off the results
  themselves: a result whose \<open>is_in_bundle\<close> is true outranks one whose \<open>is_in_bundle\<close> is
  not; with the same in-bundle status, the result with more entries in \<open>matched_terms\<close>
  outranks the one with fewer.
\<close>

definition result_in_bundle :: "pyval \<Rightarrow> bool" where
  "result_in_bundle r = (result_field ''is_in_bundle'' (Inr r) = Inr (PBool True))"

definition result_term_count :: "pyval \<Rightarrow> nat" where
  "result_term_count r =
     (case result_field ''matched_terms'' (Inr r) of Inr (PList ts) \<Rightarrow> length ts | _ \<Rightarrow> 0)"

definition outranks :: "pyval \<Rightarrow> pyval \<Rightarrow> bool" where
  "outranks a b =
     ((result_in_bundle a \<and> \<not> result_in_bundle b)
      \<or> (result_in_bundle a = result_in_bundle b \<and> result_term_count b < result_term_count a))"

section \<open>The specification's wording of the bundle test\<close>

text \<open>
  Alias Table, \<open>expand\<close>: the label alone, unless it is a canonical name or one of its
  synonyms, in which case the canonical name and all its synonyms join it; the empty
  label gives the empty set.
\<close>

definition spec_expand :: "string \<Rightarrow> string set" where
  "spec_expand label =
     (if label = [] then {}
      else insert label
             (\<Union>(base, syns) \<in> set SERVICE_SYNONYMS.
                if label = base \<or> label \<in> set syns then insert base (set syns) else {}))"

text \<open>
  Substring containment in either direction, or a common token, between an alias and a
  covered label.
\<close>

definition spec_related :: "unicode \<Rightarrow> string \<Rightarrow> string \<Rightarrow> bool" where
  "spec_related U a c = (sublist a c \<or> sublist c a \<or> (\<exists>t. t \<in> set (tokens U a) \<and> t \<in> set (tokens U c)))"

definition spec_service_match :: "unicode \<Rightarrow> pyval \<Rightarrow> pyval \<Rightarrow> bool" where
  "spec_service_match U claim contract =
     (\<exists>c \<in> set (covered_labels_of U contract). \<exists>a \<in> spec_expand (match_label U claim). spec_related U a c)"

text \<open>
  The characterisation as it is written: the stringified CPT is a member of the covered
  CPT list, or the service label matches.
\<close>

definition spec_is_in_bundle :: "unicode \<Rightarrow> pyval \<Rightarrow> pyval \<Rightarrow> bool" where
  "spec_is_in_bundle U claim contract =
     (claim_cpt U claim \<in> set (covered_cpts_of U contract) \<or> spec_service_match U claim contract)"

text \<open>
  A recommendation's own decision, compared without regard to letter case, is one of the
  four valid values.
\<close>

definition spec_decision_valid :: "unicode \<Rightarrow> pyval \<Rightarrow> bool" where
  "spec_decision_valid U reco =
     (case reco of
        PDict d \<Rightarrow> (case dict_get d ''decision'' PNone of PStr s \<Rightarrow> py_upper U s \<in> set VALID | _ \<Rightarrow> False)
      | _ \<Rightarrow> False)"

section \<open>Sample inputs\<close>

text \<open>A physical-therapy claim and a knee-episode contract that bundles it.\<close>

definition pt_claim_1 :: pyval where
  "pt_claim_1 = PDict [(''claim_id'', PStr ''CLM-1''), (''service'', PStr ''PT Rehab''), (''cpt'', PStr ''97110'')]"

definition knee_contract :: pyval where
  "knee_contract =
     PDict
       [(''plan'', PDict [(''payer'', PStr ''Acme Health''), (''plan_id'', PStr ''P-100''),
                          (''product_type'', PStr ''PPO'')]),
        (''provider_agreement'', PDict [(''provider_contract_id'', PStr ''PC-1'')]),
        (''episode'', PDict [(''episode_code'', PStr ''KNEE-90''),
                             (''covered_services'', PList [PStr ''physical therapy'']),
                             (''covered_cpts'', PList [PInt 97110])])]"

text \<open>A contract that covers the service and lists no CPT codes.\<close>

definition therapy_contract :: pyval where
  "therapy_contract =
     PDict
       [(''plan'', PDict [(''payer'', PStr ''Acme Health''), (''plan_id'', PStr ''P-300'')]),
        (''provider_agreement'', PDict [(''provider_contract_id'', PStr ''PC-3'')]),
        (''episode'', PDict [(''episode_code'', PStr ''PT-30''),
                             (''covered_services'', PList [PStr ''physical therapy''])])]"

text \<open>A contract whose episode covers nothing the claim bills.\<close>

definition flu_contract :: pyval where
  "flu_contract =
     PDict
       [(''plan'', PDict [(''payer'', PStr ''Acme Health''), (''plan_id'', PStr ''P-200'')]),
        (''provider_agreement'', PDict [(''provider_contract_id'', PStr ''PC-2'')]),
        (''episode'', PDict [(''episode_code'', PStr ''FLU-1''),
                             (''covered_services'', PList [PStr ''influenza vaccine'']),
                             (''covered_cpts'', PList [PStr ''90686''])])]"

text \<open>A contract whose covered CPT list holds the empty string.\<close>

definition blank_cpt_contract :: pyval where
  "blank_cpt_contract =
     PDict [(''episode'', PDict [(''episode_code'', PStr ''EP-0''), (''covered_cpts'', PList [PStr []])])]"

text \<open>A claim that bills a service and carries no CPT.\<close>

definition no_cpt_claim :: pyval where
  "no_cpt_claim = PDict [(''claim_id'', PStr ''CLM-2''), (''service'', PStr ''office visit'')]"

text \<open>The knee contract as a file with \<open>"plan": null\<close> gives it.\<close>

definition null_plan_contract :: pyval where
  "null_plan_contract =
     PDict
       [(''plan'', PNone),
        (''provider_agreement'', PDict [(''provider_contract_id'', PStr ''PC-1'')]),
        (''episode'', PDict [(''episode_code'', PStr ''KNEE-90''),
                             (''covered_services'', PList [PStr ''physical therapy'']),
                             (''covered_cpts'', PList [PInt 97110])])]"

section \<open>Selector inputs\<close>

text \<open>
  The contracts the Selector evaluates one by one: the elements of a sequence, or the
  values of a mapping of names to contracts (a dictionary that does not carry the key the
  Selector takes for the mark of a single contract).
\<close>

definition contract_seq :: "pyval \<Rightarrow> pyval list option" where
  "contract_seq contracts =
     (case contracts of
        PList cs \<Rightarrow> Some cs
      | PDict d \<Rightarrow> if dict_has d ''contract_id'' then None else Some (map snd d)
      | _ \<Rightarrow> None)"

text \<open>The Evaluator's result for a contract it accepts.\<close>

definition result_for :: "unicode \<Rightarrow> pyval \<Rightarrow> pyval \<Rightarrow> pyval" where
  "result_for U claim contract = projr (evaluate_against_contract U claim contract)"

text \<open>A match result marked as skipped by an eligibility check, and one in the bundle.\<close>

definition skipped_match :: pyval where
  "skipped_match =
     PDict [(''status'', PStr ''skipped''), (''contract_id'', PStr ''PC-1''),
            (''matched_terms'', PList [PStr ''97110'']), (''evidence'', PStr ''Plan has no episodes.'')]"

definition bundled_match :: pyval where
  "bundled_match =
     PDict [(''status'', PStr ''ok''), (''contract_id'', PStr ''PC-1''), (''is_in_bundle'', PBool True),
            (''matched_terms'', PList [PStr ''physical therapy'', PStr ''97110''])]"

definition unbundled_match :: pyval where
  "unbundled_match =
     PDict [(''status'', PStr ''ok''), (''contract_id'', PStr ''PC-2''), (''is_in_bundle'', PBool False),
            (''matched_terms'', PList [])]"

text \<open>Recommendations as the Response Drafter may receive them.\<close>

definition outcome_only_reco :: pyval where
  "outcome_only_reco = PDict [(''outcome'', PStr ''pay''), (''reason'', PStr ''Manual review.'')]"

definition maybe_reco :: pyval where
  "maybe_reco = PDict [(''decision'', PStr ''maybe''), (''contract_id'', PStr ''PC-1'')]"

definition reject_reco :: pyval where
  "reject_reco =
     PDict [(''decision'', PStr ''reject''), (''contract_id'', PStr ''PC-1''),
            (''matched_terms'', PList [PStr ''physical therapy'', PStr ''97110''])]"

section \<open>Basic facts\<close>

lemma bind_err_simps [simp]:
  "bind_err (Inl e) f = Inl e"
  "bind_err (Inr x) f = f x"
  by (simp_all add: bind_err_def)

lemma bind_err_Inr: "bind_err m f = Inr y \<longleftrightarrow> (\<exists>x. m = Inr x \<and> f x = Inr y)"
  by (cases m) simp_all

lemma returns_simps [simp]:
  "returns (Inr x) = True"
  "returns (Inl e) = False"
  by (simp_all add: returns_def)

lemma returns_iff: "returns m \<longleftrightarrow> (\<exists>x. m = Inr x)"
  by (cases m) simp_all

lemma returns_bind: "returns (bind_err m f) \<longleftrightarrow> (\<exists>x. m = Inr x \<and> returns (f x))"
  by (cases m) simp_all

lemma py_get_Inr: "py_get v k dflt = Inr y \<longleftrightarrow> (\<exists>d. v = PDict d \<and> y = dict_get d k dflt)"
  by (cases v) auto

lemma as_str_Inr: "as_str v = Inr s \<longleftrightarrow> v = PStr s"
  by (cases v) auto

lemma dict_get_simps [simp]:
  "dict_get [] k dflt = dflt"
  "dict_get ((k', v) # d) k dflt = (if k' = k then v else dict_get d k dflt)"
  by (simp_all add: dict_get_def)

lemma dict_get_dict_set:
  "dict_get (dict_set k v d) k' dflt = (if k' = k then v else dict_get d k' dflt)"
  by (induction d) auto

lemma map_of_dict_set:
  "map_of (dict_set k v d) k' = (if k' = k then Some v else map_of d k')"
  by (induction d) auto

lemma dict_get_Some: "map_of d k = Some v \<Longrightarrow> dict_get d k dflt = v"
  by (simp add: dict_get_def)

lemma is_dict_iff: "is_dict v \<longleftrightarrow> (\<exists>d. v = PDict d)"
  by (cases v) (simp_all add: is_dict_def)

section \<open>What the Evaluator returns\<close>

lemma service_in_bundle_Inr:
  assumes "service_in_bundle U service cov = Inr (b, m)"
  shows "m = svc_matched_of U (py_lower U (py_strip U service))
               (map (norm_covered U) (elements_of cov))
         \<and> b = (m \<noteq> [])"
  using assms
  by (auto simp: service_in_bundle_def svc_matched_of_def elements_of_def Let_def
        bind_err_Inr split: if_splits)

lemma service_in_bundle_returns:
  "returns (service_in_bundle U service cov)
     \<longleftrightarrow> (py_lower U (py_strip U service) = [] \<or> iterable cov)"
  by (cases "py_iter cov") (auto simp: service_in_bundle_def Let_def iterable_def)

lemma service_in_bundle_Inr_ex:
  "(\<exists>a b. service_in_bundle U service cov = Inr (a, b))
     \<longleftrightarrow> (py_lower U (py_strip U service) = [] \<or> (\<exists>xs. py_iter cov = Inr xs))"
  using service_in_bundle_returns [of U service cov] by (simp add: returns_iff iterable_def)

lemma evaluate_fields:
  assumes "evaluate_against_contract U claim contract = Inr r"
  shows "\<exists>d dbg. r = PDict d
     \<and> map_of d ''status'' = Some (PStr ''ok'')
     \<and> map_of d ''cpt'' = Some (PStr (claim_cpt U claim))
     \<and> map_of d ''service'' = Some (PStr (claim_service U claim))
     \<and> map_of d ''is_in_bundle'' = Some (PBool
          (cpt_hit U claim contract
           \<or> svc_matched_of U (match_label U claim) (covered_labels_of U contract) \<noteq> []))
     \<and> map_of d ''matched_terms'' = Some (PList (map PStr
          (svc_matched_of U (match_label U claim) (covered_labels_of U contract)
           @ (if cpt_hit U claim contract then [claim_cpt U claim] else []))))
     \<and> map_of d ''contract_id'' =
          Some (dict_get (dict_of (section_of contract ''provider_agreement''))
                  ''provider_contract_id'' (PStr ''UNKNOWN''))
     \<and> map_of d ''debug'' = Some (PDict dbg)
     \<and> map_of dbg ''cpt_match'' = Some (PBool (cpt_hit U claim contract))
     \<and> map_of dbg ''svc_match'' = Some (PBool
          (svc_matched_of U (match_label U claim) (covered_labels_of U contract) \<noteq> []))"
  using assms
  apply (clarsimp simp add: evaluate_against_contract_def bind_err_Inr py_get_Inr as_str_Inr Let_def
        split: prod.splits)
  apply (drule service_in_bundle_Inr)
  apply (simp add: map_of_dict_set claim_cpt_def claim_service_def match_label_def
       covered_cpts_of_def covered_labels_of_def section_of_def covered_raw_def cpt_hit_def
       elements_of_def dict_of_def)
  done

lemma evaluate_returns_iff:
  "returns (evaluate_against_contract U claim contract) \<longleftrightarrow> well_shaped U claim contract"
proof (cases "is_dict claim \<and> is_dict contract
      \<and> is_dict (section_of contract ''plan'')
      \<and> is_dict (section_of contract ''provider_agreement'')
      \<and> is_dict (section_of contract ''episode'')")
  case False
  then show ?thesis
    by (auto simp: evaluate_against_contract_def returns_bind py_get_Inr Let_def
        well_shaped_def is_dict_iff section_of_def)
next
  case True
  then obtain cl k p a e where s: "claim = PDict cl" "contract = PDict k"
    "dict_get k ''plan'' (PDict []) = PDict p"
    "dict_get k ''provider_agreement'' (PDict []) = PDict a"
    "dict_get k ''episode'' (PDict []) = PDict e"
    by (auto simp: is_dict_iff section_of_def)
  have last: "\<And>x g. returns ((case x of (a, b) \<Rightarrow> Inr (g a b)) :: py_error + pyval)"
    by (simp split: prod.splits)
  have "returns (evaluate_against_contract U claim contract) \<longleftrightarrow>
        (\<exists>ccs. py_iter (py_or (dict_get e ''covered_cpts'' (PList [])) (PList [])) = Inr ccs)
        \<and> (\<exists>s0. py_or (dict_get cl ''service'' PNone) (PStr []) = PStr s0
              \<and> returns (service_in_bundle U (py_lower U (py_strip U s0))
                           (py_or (dict_get e ''covered_services'' (PList [])) (PList []))))"
    unfolding evaluate_against_contract_def s
    by (simp add: s returns_bind as_str_Inr Let_def last) (simp add: s returns_iff)
  also have "\<dots> \<longleftrightarrow> well_shaped U claim contract"
    by (auto simp: s well_shaped_def is_dict_def section_of_def covered_raw_def iterable_def
        service_is_text_def claim_service_def match_label_def service_in_bundle_Inr_ex
        as_str_Inr returns_iff)
  finally show ?thesis .
qed

section \<open>Text made of ASCII characters\<close>

lemma lower_char_eval:
  "lower_char c =
     (if c = CHR ''A'' then CHR ''a'' else if c = CHR ''B'' then CHR ''b''
      else if c = CHR ''C'' then CHR ''c'' else if c = CHR ''D'' then CHR ''d''
      else if c = CHR ''E'' then CHR ''e'' else if c = CHR ''F'' then CHR ''f''
      else if c = CHR ''G'' then CHR ''g'' else if c = CHR ''H'' then CHR ''h''
      else if c = CHR ''I'' then CHR ''i'' else if c = CHR ''J'' then CHR ''j''
      else if c = CHR ''K'' then CHR ''k'' else if c = CHR ''L'' then CHR ''l''
      else if c = CHR ''M'' then CHR ''m'' else if c = CHR ''N'' then CHR ''n''
      else if c = CHR ''O'' then CHR ''o'' else if c = CHR ''P'' then CHR ''p''
      else if c = CHR ''Q'' then CHR ''q'' else if c = CHR ''R'' then CHR ''r''
      else if c = CHR ''S'' then CHR ''s'' else if c = CHR ''T'' then CHR ''t''
      else if c = CHR ''U'' then CHR ''u'' else if c = CHR ''V'' then CHR ''v''
      else if c = CHR ''W'' then CHR ''w'' else if c = CHR ''X'' then CHR ''x''
      else if c = CHR ''Y'' then CHR ''y'' else if c = CHR ''Z'' then CHR ''z''
      else c)"
  by (simp add: lower_char_def ascii_upper_def ascii_lower_def)

lemma upper_char_eval:
  "upper_char c =
     (if c = CHR ''a'' then CHR ''A'' else if c = CHR ''b'' then CHR ''B''
      else if c = CHR ''c'' then CHR ''C'' else if c = CHR ''d'' then CHR ''D''
      else if c = CHR ''e'' then CHR ''E'' else if c = CHR ''f'' then CHR ''F''
      else if c = CHR ''g'' then CHR ''G'' else if c = CHR ''h'' then CHR ''H''
      else if c = CHR ''i'' then CHR ''I'' else if c = CHR ''j'' then CHR ''J''
      else if c = CHR ''k'' then CHR ''K'' else if c = CHR ''l'' then CHR ''L''
      else if c = CHR ''m'' then CHR ''M'' else if c = CHR ''n'' then CHR ''N''
      else if c = CHR ''o'' then CHR ''O'' else if c = CHR ''p'' then CHR ''P''
      else if c = CHR ''q'' then CHR ''Q'' else if c = CHR ''r'' then CHR ''R''
      else if c = CHR ''s'' then CHR ''S'' else if c = CHR ''t'' then CHR ''T''
      else if c = CHR ''u'' then CHR ''U'' else if c = CHR ''v'' then CHR ''V''
      else if c = CHR ''w'' then CHR ''W'' else if c = CHR ''x'' then CHR ''X''
      else if c = CHR ''y'' then CHR ''Y'' else if c = CHR ''z'' then CHR ''Z''
      else c)"
  by (simp add: upper_char_def ascii_upper_def ascii_lower_def)

lemma whitespace_eval:
  "c \<in> set whitespace \<longleftrightarrow>
     c = CHR 0x09 \<or> c = CHR 0x0A \<or> c = CHR 0x0B \<or> c = CHR 0x0C \<or> c = CHR 0x0D \<or>
     c = CHR 0x1C \<or> c = CHR 0x1D \<or> c = CHR 0x1E \<or> c = CHR 0x1F \<or> c = CHR 0x20"
  by (simp add: whitespace_def)

lemma is_ascii_simps [simp]:
  "is_ascii []"
  "is_ascii (c # cs) \<longleftrightarrow> (of_char c :: nat) < 128 \<and> is_ascii cs"
  "is_ascii (xs @ ys) \<longleftrightarrow> is_ascii xs \<and> is_ascii ys"
  by (auto simp: is_ascii_def)

lemma is_ascii_lower_char: "(of_char c :: nat) < 128 \<Longrightarrow> (of_char (lower_char c) :: nat) < 128"
  by (simp add: lower_char_eval)

lemma is_ascii_map_lower: "is_ascii s \<Longrightarrow> is_ascii (map lower_char s)"
  by (induction s) (simp_all add: is_ascii_lower_char)

lemma is_ascii_subset: "is_ascii s \<Longrightarrow> set t \<subseteq> set s \<Longrightarrow> is_ascii t"
  by (auto simp: is_ascii_def)

lemma set_dropWhile_subset: "set (dropWhile P xs) \<subseteq> set xs"
  by (auto dest: set_dropWhileD)

lemma is_ascii_strip: "is_ascii s \<Longrightarrow> is_ascii (ascii_strip s)"
proof (erule is_ascii_subset)
  let ?w = "\<lambda>c. c \<in> set whitespace"
  have "set (ascii_strip s) \<subseteq> set (dropWhile ?w s)"
    using set_dropWhile_subset [of ?w "rev (dropWhile ?w s)"] by (simp add: ascii_strip_def)
  also have "\<dots> \<subseteq> set s" by (rule set_dropWhile_subset)
  finally show "set (ascii_strip s) \<subseteq> set s" .
qed

lemma not_continuation_ascii: "(of_char c :: nat) < 128 \<Longrightarrow> \<not> is_continuation c"
  by (simp add: is_continuation_def)

lemma chars_aux_ascii:
  "is_ascii s \<Longrightarrow> chars_aux cur s = (if cur = [] then [] else [cur]) @ map (\<lambda>c. [c]) s"
  by (induction s arbitrary: cur) (simp_all add: not_continuation_ascii)

lemma code_points_ascii: "is_ascii s \<Longrightarrow> code_points s = map (\<lambda>c. [c]) s"
  by (simp add: code_points_def chars_aux_ascii)

lemma conform_lower: "ascii_conform U \<Longrightarrow> is_ascii s \<Longrightarrow> py_lower U s = map lower_char s"
  by (simp add: ascii_conform_def py_lower_def)

lemma conform_upper: "ascii_conform U \<Longrightarrow> is_ascii s \<Longrightarrow> py_upper U s = map upper_char s"
  by (simp add: ascii_conform_def py_upper_def)

lemma conform_isspace:
  "ascii_conform U \<Longrightarrow> (of_char c :: nat) < 128 \<Longrightarrow> char_isspace U [c] = (c \<in> set whitespace)"
  by (simp add: ascii_conform_def)

lemma dropWhile_agree:
  "(\<And>x. x \<in> set xs \<Longrightarrow> P x = Q x) \<Longrightarrow> dropWhile P xs = dropWhile Q xs"
  by (induction xs) auto

lemma conform_dropWhile:
  assumes "ascii_conform U" and "is_ascii s"
  shows "dropWhile (char_isspace U) (map (\<lambda>c. [c]) s)
           = map (\<lambda>c. [c]) (dropWhile (\<lambda>c. c \<in> set whitespace) s)"
proof -
  have "dropWhile (char_isspace U) (map (\<lambda>c. [c]) s)
          = map (\<lambda>c. [c]) (dropWhile (\<lambda>c. char_isspace U [c]) s)"
    by (simp add: dropWhile_map comp_def)
  also have "dropWhile (\<lambda>c. char_isspace U [c]) s = dropWhile (\<lambda>c. c \<in> set whitespace) s"
    using assms by (intro dropWhile_agree) (simp add: conform_isspace is_ascii_def)
  finally show ?thesis .
qed

lemma concat_singletons: "concat (map (\<lambda>c. [c]) s) = s"
  by (induction s) simp_all

lemma conform_strip:
  assumes "ascii_conform U" and "is_ascii s"
  shows "py_strip U s = ascii_strip s"
proof -
  let ?w = "\<lambda>c. c \<in> set whitespace"
  have a: "is_ascii (rev (dropWhile ?w s))"
    using assms(2) by (rule is_ascii_subset) (auto dest: set_dropWhileD)
  have "py_strip U s
          = concat (rev (dropWhile (char_isspace U) (map (\<lambda>c. [c]) (rev (dropWhile ?w s)))))"
    using assms by (simp add: py_strip_def code_points_ascii conform_dropWhile rev_map)
  also have "\<dots> = ascii_strip s"
    using assms(1) a by (simp add: conform_dropWhile rev_map concat_singletons ascii_strip_def)
  finally show ?thesis .
qed

lemma conform_split_aux:
  assumes "ascii_conform U"
  shows "is_ascii s \<Longrightarrow> split_aux U cur (map (\<lambda>c. [c]) s) = ascii_split_aux cur s"
  by (induction s arbitrary: cur) (simp_all add: conform_isspace [OF assms])

lemma conform_split: "ascii_conform U \<Longrightarrow> is_ascii s \<Longrightarrow> py_split U s = ascii_split_aux [] s"
  by (simp add: py_split_def code_points_ascii conform_split_aux)

lemma is_ascii_replace_underscore: "is_ascii s \<Longrightarrow> is_ascii (replace_underscore s)"
  by (induction s) (simp_all add: replace_underscore_def)

lemma conform_tokens:
  assumes "ascii_conform U" and "is_ascii s"
  shows "tokens U s
           = filter (\<lambda>t. t \<noteq> []) (ascii_split_aux [] (replace_underscore (map lower_char s)))"
  using assms
  by (simp add: tokens_def conform_lower conform_split is_ascii_replace_underscore
      is_ascii_map_lower)

text \<open>The ASCII tables agree with themselves.\<close>

lemma ascii_tables_conform: "ascii_conform ascii_tables"
  by (simp add: ascii_conform_def ascii_tables_def)

text \<open>
  Rules that evaluate the text functions on ASCII literals, for tables that conform.
\<close>

lemmas text_eval =
  conform_lower conform_upper conform_strip conform_tokens ascii_strip_def whitespace_eval
  lower_char_eval upper_char_eval replace_underscore_def py_str_def int_str_def
  digit_char_def py_or_def norm_covered_def

lemmas view_eval =
  claim_cpt_def claim_service_def match_label_def section_of_def covered_raw_def elements_of_def
  covered_cpts_of_def covered_labels_of_def cpt_hit_def well_shaped_def is_dict_def
  iterable_def service_is_text_def dict_of_def

lemmas sample_defs =
  pt_claim_1_def knee_contract_def therapy_contract_def flu_contract_def blank_cpt_contract_def

section \<open>The bundle test\<close>

lemma py_in_str_sublist: "py_in_str a c = sublist a c"
  by (induction c) (simp_all add: sublist_Cons_right)

lemma alias_hits_spec: "alias_hits U a c = spec_related U a c"
  by (auto simp: alias_hits_def spec_related_def py_in_str_sublist)

lemma alias_hits_self: "alias_hits U a a"
  by (simp add: alias_hits_def py_in_str_sublist)

lemma aliases_of_spec: "s \<noteq> [] \<Longrightarrow> set (aliases_of s) = spec_expand s"
  by (auto simp: aliases_of_def spec_expand_def split: if_splits)

lemma svc_matched_spec:
  "svc_matched_of U (match_label U claim) (covered_labels_of U contract) \<noteq> []
     \<longleftrightarrow> spec_service_match U claim contract"
  by (auto simp: svc_matched_of_def spec_service_match_def filter_empty_conv alias_hits_spec
      aliases_of_spec spec_expand_def)

lemma result_field_Inr [simp]: "result_field k (Inr (PDict d)) = Inr (dict_get d k PNone)"
  by (simp add: result_field_def)

lemma result_field_Inl [simp]: "result_field k (Inl e) = Inl e"
  by (simp add: result_field_def)

text \<open>On well-shaped input the Evaluator returns, and these are the entries of its result.\<close>

lemma evaluate_entries:
  assumes "well_shaped U claim contract"
  shows "result_field ''is_in_bundle'' (evaluate_against_contract U claim contract)
           = Inr (PBool (cpt_hit U claim contract \<or> spec_service_match U claim contract))"
    and "result_field ''cpt_match'' (result_field ''debug'' (evaluate_against_contract U claim contract))
           = Inr (PBool (cpt_hit U claim contract))"
    and "result_field ''svc_match'' (result_field ''debug'' (evaluate_against_contract U claim contract))
           = Inr (PBool (spec_service_match U claim contract))"
    and "result_field ''contract_id'' (evaluate_against_contract U claim contract)
           = Inr (dict_get (dict_of (section_of contract ''provider_agreement''))
                    ''provider_contract_id'' (PStr ''UNKNOWN''))"
    and "result_field ''status'' (evaluate_against_contract U claim contract) = Inr (PStr ''ok'')"
    and "result_field ''matched_terms'' (evaluate_against_contract U claim contract)
           = Inr (PList (map PStr
               (svc_matched_of U (match_label U claim) (covered_labels_of U contract)
                @ (if cpt_hit U claim contract then [claim_cpt U claim] else []))))"
proof -
  from assms obtain r where r: "evaluate_against_contract U claim contract = Inr r"
    by (auto simp: returns_iff simp flip: evaluate_returns_iff)
  from evaluate_fields [OF r] obtain d dbg where f:
    "r = PDict d"
    "map_of d ''status'' = Some (PStr ''ok'')"
    "map_of d ''is_in_bundle'' = Some (PBool
          (cpt_hit U claim contract
           \<or> svc_matched_of U (match_label U claim) (covered_labels_of U contract) \<noteq> []))"
    "map_of d ''matched_terms'' = Some (PList (map PStr
          (svc_matched_of U (match_label U claim) (covered_labels_of U contract)
           @ (if cpt_hit U claim contract then [claim_cpt U claim] else []))))"
    "map_of d ''contract_id'' =
          Some (dict_get (dict_of (section_of contract ''provider_agreement''))
                  ''provider_contract_id'' (PStr ''UNKNOWN''))"
    "map_of d ''debug'' = Some (PDict dbg)"
    "map_of dbg ''cpt_match'' = Some (PBool (cpt_hit U claim contract))"
    "map_of dbg ''svc_match'' = Some (PBool
          (svc_matched_of U (match_label U claim) (covered_labels_of U contract) \<noteq> []))"
    by blast
  show "result_field ''is_in_bundle'' (evaluate_against_contract U claim contract)
           = Inr (PBool (cpt_hit U claim contract \<or> spec_service_match U claim contract))"
    by (simp add: r f dict_get_Some svc_matched_spec)
  show "result_field ''cpt_match'' (result_field ''debug'' (evaluate_against_contract U claim contract))
           = Inr (PBool (cpt_hit U claim contract))"
    by (simp add: r f dict_get_Some)
  show "result_field ''svc_match'' (result_field ''debug'' (evaluate_against_contract U claim contract))
           = Inr (PBool (spec_service_match U claim contract))"
    by (simp add: r f dict_get_Some svc_matched_spec)
  show "result_field ''contract_id'' (evaluate_against_contract U claim contract)
           = Inr (dict_get (dict_of (section_of contract ''provider_agreement''))
                    ''provider_contract_id'' (PStr ''UNKNOWN''))"
    by (simp add: r f dict_get_Some)
  show "result_field ''status'' (evaluate_against_contract U claim contract) = Inr (PStr ''ok'')"
    by (simp add: r f dict_get_Some)
  show "result_field ''matched_terms'' (evaluate_against_contract U claim contract)
           = Inr (PList (map PStr
               (svc_matched_of U (match_label U claim) (covered_labels_of U contract)
                @ (if cpt_hit U claim contract then [claim_cpt U claim] else []))))"
    by (simp add: r f dict_get_Some)
qed

lemma well_shaped_pt_knee: "well_shaped U pt_claim_1 knee_contract"
  by (simp add: sample_defs view_eval py_or_def)

lemma cpt_hit_pt_knee: "cpt_hit U pt_claim_1 knee_contract"
  by (simp add: sample_defs view_eval py_or_def py_str_def int_str_def digit_char_def)

text \<open>
  C1. For every claim and contract the Evaluator accepts, and whatever the interpreter's
  text tables, \<open>is_in_bundle\<close> is true exactly when the CPT the Evaluator derives from the
  claim, \<open>str(cpt or "")\<close>, is not empty and is a member of the contract's covered CPT list
  (coerced to strings), or the claim's normalized service label, expanded through the
  alias table, is related by containment in either direction or by a common token to at
  least one normalized covered service label.
\<close>

theorem is_in_bundle_characterised:
  assumes "well_shaped U claim contract"
  shows "result_field ''is_in_bundle'' (evaluate_against_contract U claim contract)
         = Inr (PBool ((claim_cpt U claim \<noteq> [] \<and> claim_cpt U claim \<in> set (covered_cpts_of U contract))
                       \<or> spec_service_match U claim contract))"
  using evaluate_entries(1) [OF assms] by (simp add: cpt_hit_def)

theorem is_in_bundle_characterised_witness:
  "well_shaped ascii_tables pt_claim_1 knee_contract
   \<and> result_field ''is_in_bundle'' (evaluate_against_contract ascii_tables pt_claim_1 knee_contract)
       = Inr (PBool True)"
  using is_in_bundle_characterised [OF well_shaped_pt_knee, of ascii_tables]
    cpt_hit_pt_knee [of ascii_tables] well_shaped_pt_knee [of ascii_tables]
  by (simp add: cpt_hit_def)

text \<open>
  As the characterisation is written, without the test that the CPT is not empty, it fails
  for a claim with no CPT against a contract whose covered CPT list holds the empty string:
  the written condition is true and \<open>is_in_bundle\<close> is false. No text table is consulted on
  this input.
\<close>

lemma blank_cpt_facts:
  "well_shaped U (PDict []) blank_cpt_contract"
  "\<not> cpt_hit U (PDict []) blank_cpt_contract"
  "\<not> spec_service_match U (PDict []) blank_cpt_contract"
  "spec_is_in_bundle U (PDict []) blank_cpt_contract"
  by (simp_all add: spec_is_in_bundle_def spec_service_match_def sample_defs view_eval py_or_def
      py_str_def)

theorem is_in_bundle_counterexample:
  "spec_is_in_bundle ascii_tables (PDict []) blank_cpt_contract
   \<and> result_field ''is_in_bundle''
         (evaluate_against_contract ascii_tables (PDict []) blank_cpt_contract)
       = Inr (PBool False)"
  using evaluate_entries(1) [OF blank_cpt_facts(1), of ascii_tables]
    blank_cpt_facts(2,3,4) [of ascii_tables]
  by simp

text \<open>
  Whatever the tables, a claim whose normalized service label is not empty and is one of the
  contract's normalized covered labels is in the bundle: two spellings of a label that
  \<open>strip().lower()\<close> brings together match, in any script.
\<close>

lemma same_label_in_bundle:
  assumes "well_shaped U claim contract" and "match_label U claim \<noteq> []"
    and "match_label U claim \<in> set (covered_labels_of U contract)"
  shows "result_field ''is_in_bundle'' (evaluate_against_contract U claim contract)
           = Inr (PBool True)"
proof -
  have "match_label U claim \<in> spec_expand (match_label U claim)"
    using assms(2) by (simp add: spec_expand_def)
  moreover have "spec_related U (match_label U claim) (match_label U claim)"
    by (simp add: spec_related_def)
  ultimately have "spec_service_match U claim contract"
    using assms(3) unfolding spec_service_match_def by blast
  with evaluate_entries(1) [OF assms(1)] show ?thesis by simp
qed

section \<open>The empty CPT\<close>

lemma claim_cpt_absent: "\<not> dict_has cl ''cpt'' \<Longrightarrow> claim_cpt U (PDict cl) = []"
  by (simp add: claim_cpt_def dict_has_def dict_get_def py_or_def py_str_def)

text \<open>
  C10. For every claim whose CPT is absent or stringifies to the empty string, and every
  contract the Evaluator accepts, the CPT match is false, also when the covered CPT list
  holds the empty string, and \<open>is_in_bundle\<close> is the service match alone.
\<close>

theorem empty_cpt_never_matches:
  assumes "claim_cpt U claim = []" and "well_shaped U claim contract"
  shows "result_field ''cpt_match'' (result_field ''debug'' (evaluate_against_contract U claim contract))
           = Inr (PBool False)
         \<and> result_field ''is_in_bundle'' (evaluate_against_contract U claim contract)
           = result_field ''svc_match'' (result_field ''debug'' (evaluate_against_contract U claim contract))"
  using evaluate_entries(1,2,3) [OF assms(2)] assms(1) by (simp add: cpt_hit_def)

theorem empty_cpt_never_matches_witness:
  "claim_cpt ascii_tables no_cpt_claim = [] \<and> well_shaped ascii_tables no_cpt_claim blank_cpt_contract
   \<and> [] \<in> set (covered_cpts_of ascii_tables blank_cpt_contract)
   \<and> result_field ''cpt_match''
         (result_field ''debug'' (evaluate_against_contract ascii_tables no_cpt_claim blank_cpt_contract))
       = Inr (PBool False)
   \<and> result_field ''is_in_bundle'' (evaluate_against_contract ascii_tables no_cpt_claim blank_cpt_contract)
       = result_field ''svc_match''
           (result_field ''debug'' (evaluate_against_contract ascii_tables no_cpt_claim blank_cpt_contract))"
proof -
  have c: "claim_cpt ascii_tables no_cpt_claim = []"
    by (simp add: no_cpt_claim_def claim_cpt_absent dict_has_def)
  have w: "well_shaped ascii_tables no_cpt_claim blank_cpt_contract"
    by (simp add: no_cpt_claim_def sample_defs view_eval py_or_def)
  have m: "[] \<in> set (covered_cpts_of ascii_tables blank_cpt_contract)"
    by (simp add: sample_defs view_eval py_or_def py_str_def)
  from empty_cpt_never_matches [OF c w] c w m show ?thesis by simp
qed

section \<open>A section that is present and null\<close>

text \<open>
  C8. The Evaluator is to return a result with defaults for every missing or malformed
  field. A list that is present and null is read with \<open>or []\<close> and the claim's service
  with \<open>or ""\<close>; the three sections are read with \<open>contract.get(name, {})\<close> alone, so a
  section that is present and null raises \<open>AttributeError\<close> at the first field read from
  it.
\<close>

theorem evaluate_raises_on_null_section:
  "evaluate_against_contract U pt_claim_1 null_plan_contract = Inl AttributeError"
  by (simp add: evaluate_against_contract_def pt_claim_1_def null_plan_contract_def)

text \<open>
  A contract with the section left out is evaluated, with the defaults, and so is one
  whose covered list is present and null.
\<close>

lemma evaluate_accepts_missing_section:
  "well_shaped U pt_claim_1
     (PDict [(''provider_agreement'', PDict [(''provider_contract_id'', PStr ''PC-1'')])])"
  by (simp add: sample_defs view_eval py_or_def)

lemma evaluate_accepts_null_list:
  "well_shaped U pt_claim_1
     (PDict [(''plan'', PDict []), (''episode'', PDict [(''covered_services'', PNone)])])"
  by (simp add: sample_defs view_eval py_or_def)

section \<open>Aliases\<close>

lemma service_in_bundle_single:
  assumes "py_lower U (py_strip U s) = s'" and "s' \<noteq> []" and "norm_covered U c = c'"
    and "a \<in> set (aliases_of s')" and "alias_hits U a c'"
  shows "service_in_bundle U s (PList [c]) = Inr (True, [c'])"
  using assms by (auto simp: service_in_bundle_def Let_def)

text \<open>
  C7. Alias expansion is symmetric within a synonym group: each label of a group has every
  label of the group among its aliases. So, with text tables that are the interpreter's on
  ASCII text, the label "pt" matches the covered service "physical therapy", and the label
  "physical therapy" matches the covered service "pt rehab".
\<close>

theorem alias_expansion_symmetric:
  assumes "ascii_conform U"
  shows "(\<forall>(base, syns) \<in> set SERVICE_SYNONYMS.
            \<forall>s \<in> set (base # syns). \<forall>t \<in> set (base # syns). t \<in> set (aliases_of s))
         \<and> service_in_bundle U ''pt'' (PList [PStr ''physical therapy''])
             = Inr (True, [''physical therapy''])
         \<and> service_in_bundle U ''physical therapy'' (PList [PStr ''pt rehab''])
             = Inr (True, [''pt rehab''])"
proof (intro conjI)
  show "\<forall>(base, syns) \<in> set SERVICE_SYNONYMS.
          \<forall>s \<in> set (base # syns). \<forall>t \<in> set (base # syns). t \<in> set (aliases_of s)"
    by (auto simp: aliases_of_def)
  show "service_in_bundle U ''pt'' (PList [PStr ''physical therapy''])
          = Inr (True, [''physical therapy''])"
  proof (rule service_in_bundle_single)
    show "py_lower U (py_strip U ''pt'') = ''pt''" using assms by (simp add: text_eval)
    show "norm_covered U (PStr ''physical therapy'') = ''physical therapy''"
      using assms by (simp add: text_eval)
    show "''physical therapy'' \<in> set (aliases_of ''pt'')"
      by (simp add: aliases_of_def SERVICE_SYNONYMS_def)
    show "alias_hits U ''physical therapy'' ''physical therapy''" by (rule alias_hits_self)
  qed simp
  show "service_in_bundle U ''physical therapy'' (PList [PStr ''pt rehab''])
          = Inr (True, [''pt rehab''])"
  proof (rule service_in_bundle_single)
    show "py_lower U (py_strip U ''physical therapy'') = ''physical therapy''"
      using assms by (simp add: text_eval)
    show "norm_covered U (PStr ''pt rehab'') = ''pt rehab''" using assms by (simp add: text_eval)
    show "''pt rehab'' \<in> set (aliases_of ''physical therapy'')"
      by (simp add: aliases_of_def SERVICE_SYNONYMS_def)
    show "alias_hits U ''pt rehab'' ''pt rehab''" by (rule alias_hits_self)
  qed simp
qed

theorem alias_expansion_symmetric_witness:
  "ascii_conform ascii_tables
   \<and> ''physical therapy'' \<in> set (aliases_of ''pt'') \<and> ''pt'' \<in> set (aliases_of ''physical therapy'')
   \<and> ''flu shot'' \<in> set (aliases_of ''influenza immunization'')
   \<and> service_in_bundle ascii_tables ''pt'' (PList [PStr ''physical therapy''])
       = Inr (True, [''physical therapy''])
   \<and> service_in_bundle ascii_tables ''physical therapy'' (PList [PStr ''pt rehab''])
       = Inr (True, [''pt rehab''])"
proof -
  note sym_all = alias_expansion_symmetric [OF ascii_tables_conform]
  have g1: "(''physical therapy'',
        [''pt'', ''pt rehab'', ''therapy'', ''rehab'', ''physiotherapy'', ''post-op rehab''])
      \<in> set SERVICE_SYNONYMS"
    by (simp add: SERVICE_SYNONYMS_def)
  have g2: "(''influenza vaccine'', [''flu shot'', ''flu vaccine'', ''influenza immunization''])
      \<in> set SERVICE_SYNONYMS"
    by (simp add: SERVICE_SYNONYMS_def)
  from sym_all have sym:
    "\<forall>(base, syns) \<in> set SERVICE_SYNONYMS.
       \<forall>s \<in> set (base # syns). \<forall>t \<in> set (base # syns). t \<in> set (aliases_of s)"
    by (rule conjunct1)
  from bspec [OF sym g1] have
    "\<forall>s \<in> set [''physical therapy'', ''pt'', ''pt rehab'', ''therapy'', ''rehab'',
                  ''physiotherapy'', ''post-op rehab''].
       \<forall>t \<in> set [''physical therapy'', ''pt'', ''pt rehab'', ''therapy'', ''rehab'',
                  ''physiotherapy'', ''post-op rehab'']. t \<in> set (aliases_of s)"
    by simp
  then have a: "''physical therapy'' \<in> set (aliases_of ''pt'')"
    and b: "''pt'' \<in> set (aliases_of ''physical therapy'')"
    by simp_all
  from bspec [OF sym g2] have
    "\<forall>s \<in> set [''influenza vaccine'', ''flu shot'', ''flu vaccine'', ''influenza immunization''].
       \<forall>t \<in> set [''influenza vaccine'', ''flu shot'', ''flu vaccine'', ''influenza immunization''].
         t \<in> set (aliases_of s)"
    by simp
  then have c: "''flu shot'' \<in> set (aliases_of ''influenza immunization'')"
    by simp
  from a b c sym_all [THEN conjunct2] ascii_tables_conform show ?thesis by simp
qed

section \<open>No contracts\<close>

lemma no_contracts_fields:
  "result_field ''status'' (Inr (no_contracts_result c)) = Inr (PStr ''error'')"
  "result_field ''reason'' (Inr (no_contracts_result c)) = Inr (PStr ''no_contracts'')"
  "result_field ''is_in_bundle'' (Inr (no_contracts_result c)) = Inr (PBool False)"
  "result_field ''contract_id'' (Inr (no_contracts_result c)) = Inr (PStr ''UNKNOWN'')"
  "result_field ''matched_terms'' (Inr (no_contracts_result c)) = Inr (PList [])"
  "result_field ''evidence'' (Inr (no_contracts_result c)) = Inr (PStr ''No contracts supplied.'')"
  by (simp_all add: no_contracts_result_def)

lemma no_contracts_agent:
  assumes "contracts = PList [] \<or> contracts = PDict [] \<or> contracts = PNone"
  shows "bundled_match_agent U pt_claim contracts = Inr (no_contracts_result pt_claim)"
  using assms
  by (auto simp: bundled_match_agent_def dict_has_def py_or_def pick_best_def)

text \<open>
  C3. For every claim, whatever it is, the Selector called with no contracts (the empty
  list, the empty mapping, or \<open>None\<close>) raises nothing and returns the result whose status is
  "error", reason "no_contracts", \<open>is_in_bundle\<close> false, contract id "UNKNOWN" and matched
  terms empty.
\<close>

theorem no_contracts_error_result:
  assumes "contracts = PList [] \<or> contracts = PDict [] \<or> contracts = PNone"
  shows "result_field ''status'' (bundled_match_agent U pt_claim contracts) = Inr (PStr ''error'')
    \<and> result_field ''reason'' (bundled_match_agent U pt_claim contracts) = Inr (PStr ''no_contracts'')
    \<and> result_field ''is_in_bundle'' (bundled_match_agent U pt_claim contracts) = Inr (PBool False)
    \<and> result_field ''contract_id'' (bundled_match_agent U pt_claim contracts) = Inr (PStr ''UNKNOWN'')
    \<and> result_field ''matched_terms'' (bundled_match_agent U pt_claim contracts) = Inr (PList [])
    \<and> result_field ''evidence'' (bundled_match_agent U pt_claim contracts)
        = Inr (PStr ''No contracts supplied.'')"
  unfolding no_contracts_agent [OF assms] no_contracts_fields by simp

theorem no_contracts_error_result_witness:
  "result_field ''status'' (bundled_match_agent ascii_tables pt_claim_1 (PList [])) = Inr (PStr ''error'')
   \<and> result_field ''reason'' (bundled_match_agent ascii_tables (PInt 7) (PDict []))
       = Inr (PStr ''no_contracts'')
   \<and> result_field ''is_in_bundle'' (bundled_match_agent ascii_tables PNone PNone) = Inr (PBool False)"
  using no_contracts_error_result [of "PList []" ascii_tables pt_claim_1]
    no_contracts_error_result [of "PDict []" ascii_tables "PInt 7"]
    no_contracts_error_result [of PNone ascii_tables PNone]
  by simp

section \<open>The ranking of the Selector\<close>

lemma sorted_le_last: "sorted ys \<Longrightarrow> y \<in> set ys \<Longrightarrow> y \<le> last ys"
  by (induction ys) (auto split: if_splits)

lemma last_filter_same: "xs \<noteq> [] \<Longrightarrow> P (last xs) \<Longrightarrow> last (filter P xs) = last xs"
  by (induction xs rule: rev_induct) auto

lemma hd_filter_index:
  assumes "filter P xs \<noteq> []"
  shows "\<exists>i<length xs. hd (filter P xs) = xs ! i \<and> P (xs ! i) \<and> (\<forall>j<i. \<not> P (xs ! j))"
  using assms
proof (induction xs)
  case Nil
  then show ?case by simp
next
  case (Cons x xs)
  show ?case
  proof (cases "P x")
    case True
    then have "hd (filter P (x # xs)) = (x # xs) ! 0 \<and> P ((x # xs) ! 0)
        \<and> (\<forall>j<0. \<not> P ((x # xs) ! j))"
      by simp
    then show ?thesis by blast
  next
    case False
    with Cons.prems have "filter P xs \<noteq> []" by simp
    from Cons.IH [OF this] obtain i where i: "i < length xs" "hd (filter P xs) = xs ! i"
      "P (xs ! i)" "\<forall>j<i. \<not> P (xs ! j)"
      by blast
    have "\<forall>j<Suc i. \<not> P ((x # xs) ! j)"
    proof (intro allI impI)
      fix j assume "j < Suc i"
      with False i(4) show "\<not> P ((x # xs) ! j)" by (cases j) auto
    qed
    with False i(1,2,3) have "Suc i < length (x # xs) \<and> hd (filter P (x # xs)) = (x # xs) ! Suc i
        \<and> P ((x # xs) ! Suc i) \<and> (\<forall>j<Suc i. \<not> P ((x # xs) ! j))"
      by simp
    then show ?thesis by blast
  qed
qed

text \<open>
  The head of a list sorted by \<open>sort(key=f, reverse=True)\<close> is the first element, in the
  order of the list, whose key is greatest.
\<close>

lemma hd_sort_reverse:
  fixes f :: "'a \<Rightarrow> 'k::linorder"
  assumes "xs \<noteq> []"
  shows "\<exists>i<length xs. hd (sort_reverse f xs) = xs ! i
           \<and> (\<forall>j<length xs. f (xs ! j) \<le> f (xs ! i))
           \<and> (\<forall>j<i. f (xs ! j) < f (xs ! i))"
proof -
  define ys where "ys = sort_key f (rev xs)"
  define K where "K = f (last ys)"
  have ne: "ys \<noteq> []" using assms by (auto simp: ys_def dest: arg_cong [where f = length])
  have top: "f x \<le> K" if "x \<in> set xs" for x
  proof -
    have "sorted (map f ys)" by (simp add: ys_def)
    moreover have "f x \<in> set (map f ys)" using that by (simp add: ys_def)
    ultimately have "f x \<le> last (map f ys)" by (rule sorted_le_last)
    then show ?thesis using ne by (simp add: K_def last_map)
  qed
  have "hd (sort_reverse f xs) = last ys"
    by (simp add: sort_reverse_def ys_def hd_rev)
  also have "\<dots> = last (filter (\<lambda>y. f y = K) ys)"
    using ne by (simp add: last_filter_same K_def)
  also have "\<dots> = last (filter (\<lambda>y. f y = K) (rev xs))"
    by (simp add: ys_def sort_key_stable)
  also have "\<dots> = hd (filter (\<lambda>y. f y = K) xs)"
    by (simp add: last_rev flip: rev_filter)
  finally have pick: "hd (sort_reverse f xs) = hd (filter (\<lambda>y. f y = K) xs)" .
  have "last ys \<in> set xs" using ne last_in_set [of ys] by (simp add: ys_def)
  then have "filter (\<lambda>y. f y = K) xs \<noteq> []"
    by (auto simp: filter_empty_conv K_def)
  from hd_filter_index [OF this] obtain i where i: "i < length xs"
    "hd (filter (\<lambda>y. f y = K) xs) = xs ! i" "f (xs ! i) = K" "\<forall>j<i. f (xs ! j) \<noteq> K"
    by blast
  have "\<forall>j<length xs. f (xs ! j) \<le> f (xs ! i)"
    using top i(3) by simp
  moreover have "\<forall>j<i. f (xs ! j) < f (xs ! i)"
  proof (intro allI impI)
    fix j assume j: "j < i"
    with i(1) have "f (xs ! j) \<le> K" by (intro top) simp
    with i(3,4) j show "f (xs ! j) < f (xs ! i)" by auto
  qed
  ultimately show ?thesis using pick i(1,2) by auto
qed

lemma map_err_returns:
  assumes "\<forall>x \<in> set xs. returns (f x)"
  shows "map_err f xs = Inr (map (\<lambda>x. projr (f x)) xs)"
  using assms by (induction xs) (auto simp: returns_iff)

lemma evaluate_result_for:
  "well_shaped U claim k \<Longrightarrow> evaluate_against_contract U claim k = Inr (result_for U claim k)"
  by (auto simp: result_for_def returns_iff simp flip: evaluate_returns_iff)

text \<open>
  The sort key of the Evaluator's result and what the result itself says, from the claim
  and the contract.
\<close>

lemma rank_of_result:
  assumes "well_shaped U claim k"
  shows "in_bundle_of (result_for U claim k) = (cpt_hit U claim k \<or> spec_service_match U claim k)"
    and "n_matched_of (result_for U claim k)
           = length (svc_matched_of U (match_label U claim) (covered_labels_of U k))
             + (if cpt_hit U claim k then 1 else 0)"
    and "result_in_bundle (result_for U claim k)
           = (cpt_hit U claim k \<or> spec_service_match U claim k)"
    and "result_term_count (result_for U claim k)
           = length (svc_matched_of U (match_label U claim) (covered_labels_of U k))
             + (if cpt_hit U claim k then 1 else 0)"
proof -
  from evaluate_fields [OF evaluate_result_for [OF assms]] obtain d where f:
    "result_for U claim k = PDict d"
    "map_of d ''is_in_bundle'' = Some (PBool
          (cpt_hit U claim k
           \<or> svc_matched_of U (match_label U claim) (covered_labels_of U k) \<noteq> []))"
    "map_of d ''matched_terms'' = Some (PList (map PStr
          (svc_matched_of U (match_label U claim) (covered_labels_of U k)
           @ (if cpt_hit U claim k then [claim_cpt U claim] else []))))"
    by blast
  show "in_bundle_of (result_for U claim k) = (cpt_hit U claim k \<or> spec_service_match U claim k)"
    by (simp add: in_bundle_of_def f dict_get_Some svc_matched_spec)
  show "n_matched_of (result_for U claim k)
           = length (svc_matched_of U (match_label U claim) (covered_labels_of U k))
             + (if cpt_hit U claim k then 1 else 0)"
    by (simp add: n_matched_of_def f dict_get_Some)
  show "result_in_bundle (result_for U claim k)
           = (cpt_hit U claim k \<or> spec_service_match U claim k)"
    by (simp add: result_in_bundle_def f dict_get_Some svc_matched_spec)
  show "result_term_count (result_for U claim k)
           = length (svc_matched_of U (match_label U claim) (covered_labels_of U k))
             + (if cpt_hit U claim k then 1 else 0)"
    by (simp add: result_term_count_def f dict_get_Some)
qed

text \<open>On the Evaluator's results, the order of the sort keys is the ranking of the rule.\<close>

lemma outranks_key:
  assumes "well_shaped U claim a" and "well_shaped U claim b"
  shows "outranks (result_for U claim a) (result_for U claim b)
           \<longleftrightarrow> rank_key (result_for U claim b) < rank_key (result_for U claim a)"
  unfolding outranks_def rank_key_def
    rank_of_result(1,2) [OF assms(1)] rank_of_result(3,4) [OF assms(1)]
    rank_of_result(1,2) [OF assms(2)] rank_of_result(3,4) [OF assms(2)]
  by auto

lemma not_outranks_key:
  assumes "well_shaped U claim a" and "well_shaped U claim b"
  shows "\<not> outranks (result_for U claim a) (result_for U claim b)
           \<longleftrightarrow> rank_key (result_for U claim a) \<le> rank_key (result_for U claim b)"
  by (simp add: outranks_key [OF assms] not_less)

text \<open>What the Selector does with a sequence or a mapping of contracts it can evaluate.\<close>

lemma selector_on_seq:
  assumes "contract_seq contracts = Some cs" and "\<forall>k \<in> set cs. well_shaped U claim k"
  shows "bundled_match_agent U claim contracts
           = Inr (pick_best claim (map (result_for U claim) cs))"
proof -
  from assms(2) have "\<forall>k \<in> set cs. returns (evaluate_against_contract U claim k)"
    by (simp add: evaluate_returns_iff)
  then have m: "map_err (evaluate_against_contract U claim) cs = Inr (map (result_for U claim) cs)"
    by (simp add: map_err_returns result_for_def [abs_def])
  from assms(1) show ?thesis
  proof (cases contracts)
    case (PList xs)
    with assms(1) have "xs = cs" by (simp add: contract_seq_def)
    with PList m show ?thesis
      by (cases "cs = []") (simp_all add: bundled_match_agent_def py_or_def)
  next
    case (PDict d)
    with assms(1) have "\<not> dict_has d ''contract_id''" "map snd d = cs"
      by (simp_all add: contract_seq_def split: if_splits)
    with PDict m show ?thesis by (simp add: bundled_match_agent_def)
  qed (simp_all add: contract_seq_def)
qed

lemma selector_pick:
  assumes "contract_seq contracts = Some cs" and "cs \<noteq> []"
    and "\<forall>k \<in> set cs. well_shaped U claim k"
  shows "\<exists>i<length cs.
           bundled_match_agent U claim contracts = evaluate_against_contract U claim (cs ! i)
           \<and> (\<forall>j<length cs. \<not> outranks (result_for U claim (cs ! j)) (result_for U claim (cs ! i)))
           \<and> (\<forall>j<i. outranks (result_for U claim (cs ! i)) (result_for U claim (cs ! j)))"
proof -
  let ?rs = "map (result_for U claim) cs"
  from assms(2) have ne: "?rs \<noteq> []" by simp
  from hd_sort_reverse [OF ne, of rank_key] obtain i where i: "i < length ?rs"
    "hd (sort_reverse rank_key ?rs) = ?rs ! i"
    "\<forall>j<length ?rs. rank_key (?rs ! j) \<le> rank_key (?rs ! i)"
    "\<forall>j<i. rank_key (?rs ! j) < rank_key (?rs ! i)"
    by blast
  from i(1) have il: "i < length cs" by simp
  from il assms(3) have wi: "well_shaped U claim (cs ! i)" by simp
  have "bundled_match_agent U claim contracts = Inr (?rs ! i)"
    using selector_on_seq [OF assms(1,3)] ne i(2) by (simp add: pick_best_def)
  also have "\<dots> = evaluate_against_contract U claim (cs ! i)"
    using il wi by (simp add: evaluate_result_for)
  finally have r: "bundled_match_agent U claim contracts
                     = evaluate_against_contract U claim (cs ! i)" .
  have a: "\<forall>j<length cs. \<not> outranks (result_for U claim (cs ! j)) (result_for U claim (cs ! i))"
  proof (intro allI impI)
    fix j assume j: "j < length cs"
    with assms(3) have wj: "well_shaped U claim (cs ! j)" by simp
    from i(3) j il have "rank_key (result_for U claim (cs ! j)) \<le> rank_key (result_for U claim (cs ! i))"
      by simp
    then show "\<not> outranks (result_for U claim (cs ! j)) (result_for U claim (cs ! i))"
      by (simp add: not_outranks_key [OF wj wi])
  qed
  have b: "\<forall>j<i. outranks (result_for U claim (cs ! i)) (result_for U claim (cs ! j))"
  proof (intro allI impI)
    fix j assume j: "j < i"
    with il assms(3) have wj: "well_shaped U claim (cs ! j)" by simp
    from i(4) j il have "rank_key (result_for U claim (cs ! j)) < rank_key (result_for U claim (cs ! i))"
      by simp
    then show "outranks (result_for U claim (cs ! i)) (result_for U claim (cs ! j))"
      by (simp add: outranks_key [OF wi wj])
  qed
  from il r a b show ?thesis by blast
qed

text \<open>
  When one contract's result outranks the result of every other contract, it is the
  result returned, wherever the contract stands.
\<close>

lemma selector_untied:
  assumes "contract_seq contracts = Some cs" and "\<forall>k \<in> set cs. well_shaped U claim k"
    and "k \<in> set cs"
    and "\<forall>k' \<in> set cs. k' \<noteq> k \<longrightarrow> outranks (result_for U claim k) (result_for U claim k')"
  shows "bundled_match_agent U claim contracts = evaluate_against_contract U claim k"
proof -
  from assms(3) have "cs \<noteq> []" by auto
  from selector_pick [OF assms(1) this assms(2)] obtain i where i: "i < length cs"
    "bundled_match_agent U claim contracts = evaluate_against_contract U claim (cs ! i)"
    "\<forall>j<length cs. \<not> outranks (result_for U claim (cs ! j)) (result_for U claim (cs ! i))"
    by blast
  from assms(3) obtain j where j: "j < length cs" "cs ! j = k"
    by (auto simp: in_set_conv_nth)
  have "cs ! i = k"
  proof (rule ccontr)
    assume "cs ! i \<noteq> k"
    with assms(4) i(1) have "outranks (result_for U claim k) (result_for U claim (cs ! i))"
      by simp
    with i(3) j show False by auto
  qed
  with i(2) show ?thesis by simp
qed

text \<open>
  The ranking of the Selector on contracts the Evaluator accepts: it returns the
  Evaluator's result of one of them; no result outranks it, and it outranks every result
  evaluated before it. Hence a contract whose result outranks all the others is chosen at
  whatever position it stands.
\<close>

lemma selector_returns_first_best:
  assumes "contract_seq contracts = Some cs" and "cs \<noteq> []"
    and "\<forall>k \<in> set cs. well_shaped U claim k"
  shows "(\<exists>i<length cs.
            bundled_match_agent U claim contracts = evaluate_against_contract U claim (cs ! i)
            \<and> (\<forall>j<length cs. \<not> outranks (result_for U claim (cs ! j)) (result_for U claim (cs ! i)))
            \<and> (\<forall>j<i. outranks (result_for U claim (cs ! i)) (result_for U claim (cs ! j))))
         \<and> (\<forall>k \<in> set cs.
               (\<forall>k' \<in> set cs. k' \<noteq> k \<longrightarrow> outranks (result_for U claim k) (result_for U claim k'))
               \<longrightarrow> bundled_match_agent U claim contracts = evaluate_against_contract U claim k)"
  using selector_pick [OF assms] selector_untied [OF assms(1,3)] by blast

text \<open>
  Three contracts for the physical-therapy claim: the flu contract does not bundle it, the
  therapy contract bundles it with one matched term, the knee contract with two. The knee
  contract's result is returned from the last place.
\<close>

lemma pt_label: "ascii_conform U \<Longrightarrow> match_label U pt_claim_1 = ''pt rehab''"
  by (simp add: match_label_def claim_service_def pt_claim_1_def text_eval)

lemma svc_matched_single:
  assumes "s \<noteq> []" and "a \<in> set (aliases_of s)" and "alias_hits U a c"
  shows "svc_matched_of U s [c] = [c]"
  using assms by (auto simp: svc_matched_of_def)

lemma pt_matches_therapy:
  assumes "ascii_conform U"
  shows "svc_matched_of U (match_label U pt_claim_1) [''physical therapy''] = [''physical therapy'']"
  unfolding pt_label [OF assms]
proof (rule svc_matched_single)
  show "''physical therapy'' \<in> set (aliases_of ''pt rehab'')"
    by (simp add: aliases_of_def SERVICE_SYNONYMS_def)
  show "alias_hits U ''physical therapy'' ''physical therapy''" by (rule alias_hits_self)
qed simp

lemma well_shaped_pt_samples:
  "well_shaped U pt_claim_1 flu_contract" "well_shaped U pt_claim_1 therapy_contract"
  by (simp_all add: sample_defs view_eval py_or_def)

lemma knee_rank:
  assumes "ascii_conform U"
  shows "result_in_bundle (result_for U pt_claim_1 knee_contract)"
    and "result_term_count (result_for U pt_claim_1 knee_contract) = 2"
proof -
  have l: "covered_labels_of U knee_contract = [''physical therapy'']"
    using assms by (simp add: covered_labels_of_def covered_raw_def section_of_def
        elements_of_def knee_contract_def text_eval)
  show "result_in_bundle (result_for U pt_claim_1 knee_contract)"
    using rank_of_result(3) [OF well_shaped_pt_knee, of U] cpt_hit_pt_knee [of U] by simp
  show "result_term_count (result_for U pt_claim_1 knee_contract) = 2"
    using rank_of_result(4) [OF well_shaped_pt_knee, of U] cpt_hit_pt_knee [of U]
    by (simp add: l pt_matches_therapy [OF assms])
qed

lemma therapy_rank:
  assumes "ascii_conform U"
  shows "result_in_bundle (result_for U pt_claim_1 therapy_contract)"
    and "result_term_count (result_for U pt_claim_1 therapy_contract) = 1"
proof -
  have l: "covered_labels_of U therapy_contract = [''physical therapy'']"
    using assms by (simp add: covered_labels_of_def covered_raw_def section_of_def
        elements_of_def therapy_contract_def text_eval)
  have c: "\<not> cpt_hit U pt_claim_1 therapy_contract"
    by (simp add: sample_defs view_eval py_or_def py_str_def)
  have m: "svc_matched_of U (match_label U pt_claim_1) (covered_labels_of U therapy_contract)
             = [''physical therapy'']"
    by (simp add: l pt_matches_therapy [OF assms])
  show "result_in_bundle (result_for U pt_claim_1 therapy_contract)"
    using rank_of_result(3) [OF well_shaped_pt_samples(2), of U]
      svc_matched_spec [of U pt_claim_1 therapy_contract]
    by (simp add: m)
  show "result_term_count (result_for U pt_claim_1 therapy_contract) = 1"
    using rank_of_result(4) [OF well_shaped_pt_samples(2), of U] c by (simp add: m)
qed

lemma flu_rank:
  assumes "ascii_conform U"
  shows "\<not> result_in_bundle (result_for U pt_claim_1 flu_contract)"
proof -
  have l: "covered_labels_of U flu_contract = [''influenza vaccine'']"
    using assms by (simp add: covered_labels_of_def covered_raw_def section_of_def
        elements_of_def flu_contract_def text_eval)
  have c: "\<not> cpt_hit U pt_claim_1 flu_contract"
    by (simp add: sample_defs view_eval py_or_def py_str_def)
  have "svc_matched_of U ''pt rehab'' [''influenza vaccine''] = []"
    using assms
    by (auto simp: svc_matched_of_def aliases_of_def SERVICE_SYNONYMS_def alias_hits_def text_eval)
  then have "svc_matched_of U (match_label U pt_claim_1) (covered_labels_of U flu_contract) = []"
    by (simp add: l pt_label [OF assms])
  with rank_of_result(3) [OF well_shaped_pt_samples(1), of U]
    svc_matched_spec [of U pt_claim_1 flu_contract] c
  show ?thesis by simp
qed

lemma selector_ranking_example:
  "bundled_match_agent ascii_tables pt_claim_1 (PList [flu_contract, therapy_contract, knee_contract])
     = evaluate_against_contract ascii_tables pt_claim_1 knee_contract
   \<and> bundled_match_agent ascii_tables pt_claim_1 (PList [knee_contract, therapy_contract, flu_contract])
     = evaluate_against_contract ascii_tables pt_claim_1 knee_contract
   \<and> result_field ''matched_terms''
       (bundled_match_agent ascii_tables pt_claim_1 (PList [flu_contract, therapy_contract, knee_contract]))
     = Inr (PList [PStr ''physical therapy'', PStr ''97110''])
   \<and> result_field ''matched_terms'' (evaluate_against_contract ascii_tables pt_claim_1 therapy_contract)
     = Inr (PList [PStr ''physical therapy''])"
proof -
  let ?U = ascii_tables
  note c = ascii_tables_conform
  have o1: "outranks (result_for ?U pt_claim_1 knee_contract) (result_for ?U pt_claim_1 flu_contract)"
    by (simp add: outranks_def knee_rank [OF c] flu_rank [OF c])
  have o2: "outranks (result_for ?U pt_claim_1 knee_contract)
              (result_for ?U pt_claim_1 therapy_contract)"
    by (simp add: outranks_def knee_rank [OF c] therapy_rank [OF c])
  have w: "\<forall>k \<in> set [flu_contract, therapy_contract, knee_contract]. well_shaped ?U pt_claim_1 k"
    "\<forall>k \<in> set [knee_contract, therapy_contract, flu_contract]. well_shaped ?U pt_claim_1 k"
    by (simp_all add: well_shaped_pt_samples well_shaped_pt_knee)
  have top: "\<forall>k' \<in> set [flu_contract, therapy_contract, knee_contract]. k' \<noteq> knee_contract \<longrightarrow>
      outranks (result_for ?U pt_claim_1 knee_contract) (result_for ?U pt_claim_1 k')"
    "\<forall>k' \<in> set [knee_contract, therapy_contract, flu_contract]. k' \<noteq> knee_contract \<longrightarrow>
      outranks (result_for ?U pt_claim_1 knee_contract) (result_for ?U pt_claim_1 k')"
    using o1 o2 by simp_all
  have r1: "bundled_match_agent ?U pt_claim_1 (PList [flu_contract, therapy_contract, knee_contract])
              = evaluate_against_contract ?U pt_claim_1 knee_contract"
    by (rule selector_untied [OF _ w(1) _ top(1)]) (simp_all add: contract_seq_def)
  have r2: "bundled_match_agent ?U pt_claim_1 (PList [knee_contract, therapy_contract, flu_contract])
              = evaluate_against_contract ?U pt_claim_1 knee_contract"
    by (rule selector_untied [OF _ w(2) _ top(2)]) (simp_all add: contract_seq_def)
  have lk: "covered_labels_of ?U knee_contract = [''physical therapy'']"
    using c by (simp add: covered_labels_of_def covered_raw_def section_of_def
        elements_of_def knee_contract_def text_eval)
  have lt: "covered_labels_of ?U therapy_contract = [''physical therapy'']"
    using c by (simp add: covered_labels_of_def covered_raw_def section_of_def
        elements_of_def therapy_contract_def text_eval)
  have ct: "\<not> cpt_hit ?U pt_claim_1 therapy_contract"
    by (simp add: sample_defs view_eval py_or_def py_str_def)
  have ck: "claim_cpt ?U pt_claim_1 = ''97110''"
    by (simp add: claim_cpt_def pt_claim_1_def py_or_def py_str_def)
  have m1: "result_field ''matched_terms'' (evaluate_against_contract ?U pt_claim_1 knee_contract)
              = Inr (PList [PStr ''physical therapy'', PStr ''97110''])"
    using evaluate_entries(6) [OF well_shaped_pt_knee, of ?U] cpt_hit_pt_knee [of ?U]
    by (simp add: lk pt_matches_therapy [OF c] ck)
  have m2: "result_field ''matched_terms'' (evaluate_against_contract ?U pt_claim_1 therapy_contract)
              = Inr (PList [PStr ''physical therapy''])"
    using evaluate_entries(6) [OF well_shaped_pt_samples(2), of ?U] ct
    by (simp add: lt pt_matches_therapy [OF c])
  from r1 r2 m1 m2 show ?thesis by simp
qed

section \<open>A list with a contract the Evaluator does not accept\<close>

text \<open>
  C6. The Selector is to return, for every non-empty sequence or mapping of contracts, the
  best of the per-contract results. It evaluates every contract before it ranks, so one
  contract with a section that is present and null makes the whole call raise, although
  the knee contract beside it is evaluated and bundles the claim.
\<close>

theorem selector_raises_on_null_section:
  "bundled_match_agent U pt_claim_1 (PList [knee_contract, null_plan_contract])
     = Inl AttributeError
   \<and> result_field ''is_in_bundle'' (evaluate_against_contract U pt_claim_1 knee_contract)
     = Inr (PBool True)"
proof -
  have n: "evaluate_against_contract U pt_claim_1 null_plan_contract = Inl AttributeError"
    by (simp add: evaluate_against_contract_def pt_claim_1_def null_plan_contract_def)
  have "bundled_match_agent U pt_claim_1 (PList [knee_contract, null_plan_contract])
          = Inl AttributeError"
    by (simp add: bundled_match_agent_def py_or_def n
        evaluate_result_for [OF well_shaped_pt_knee])
  moreover have "result_field ''is_in_bundle'' (evaluate_against_contract U pt_claim_1 knee_contract)
          = Inr (PBool True)"
    using evaluate_entries(1) [OF well_shaped_pt_knee, of U] cpt_hit_pt_knee [of U] by simp
  ultimately show ?thesis by simp
qed

section \<open>Single-contract input\<close>

lemma selector_delegates_on_contract_id:
  "dict_has d ''contract_id''
     \<Longrightarrow> bundled_match_agent U claim (PDict d) = evaluate_against_contract U claim (PDict d)"
  by (simp add: bundled_match_agent_def)

lemma no_episode_rank:
  assumes "well_shaped U claim k" and "section_of k ''episode'' = PDict []"
  shows "\<not> result_in_bundle (result_for U claim k)" and "result_term_count (result_for U claim k) = 0"
    and "\<not> cpt_hit U claim k" and "\<not> spec_service_match U claim k"
proof -
  from assms(2) have c: "covered_cpts_of U k = []" "covered_labels_of U k = []"
    by (simp_all add: covered_cpts_of_def covered_labels_of_def covered_raw_def elements_of_def
        py_or_def)
  then have h: "\<not> cpt_hit U claim k"
    "svc_matched_of U (match_label U claim) (covered_labels_of U k) = []"
    by (simp_all add: cpt_hit_def svc_matched_of_def)
  with rank_of_result(3,4) [OF assms(1)] svc_matched_spec [of U claim k]
  show "\<not> result_in_bundle (result_for U claim k)"
    and "result_term_count (result_for U claim k) = 0"
    and "\<not> cpt_hit U claim k" and "\<not> spec_service_match U claim k"
    by simp_all
qed

text \<open>
  C2. A single contract of the three-section shape is to be recognised and handed to the
  Evaluator. The Selector recognises a single contract by a top-level key \<open>contract_id\<close>,
  which the three-section shape does not have (its identifier is
  \<open>provider_agreement.provider_contract_id\<close>). The knee contract passed alone is therefore
  read as a mapping of names to contracts: its three sections are evaluated as if each
  were a contract, none matches, and the result of the first is returned.
\<close>

theorem single_contract_not_delegated:
  "result_field ''contract_id'' (bundled_match_agent U pt_claim_1 knee_contract) = Inr (PStr ''UNKNOWN'')
   \<and> result_field ''is_in_bundle'' (bundled_match_agent U pt_claim_1 knee_contract) = Inr (PBool False)
   \<and> result_field ''contract_id'' (evaluate_against_contract U pt_claim_1 knee_contract)
       = Inr (PStr ''PC-1'')
   \<and> result_field ''is_in_bundle'' (evaluate_against_contract U pt_claim_1 knee_contract)
       = Inr (PBool True)"
proof -
  define plan where "plan = PDict [(''payer'', PStr ''Acme Health''), (''plan_id'', PStr ''P-100''),
                          (''product_type'', PStr ''PPO'')]"
  define prov where "prov = PDict [(''provider_contract_id'', PStr ''PC-1'')]"
  define ep where "ep = PDict [(''episode_code'', PStr ''KNEE-90''),
                             (''covered_services'', PList [PStr ''physical therapy'']),
                             (''covered_cpts'', PList [PInt 97110])]"
  let ?cs = "[plan, prov, ep]"
  have s: "contract_seq knee_contract = Some ?cs"
    by (simp add: contract_seq_def knee_contract_def dict_has_def plan_def prov_def ep_def)
  have w: "\<forall>k \<in> set ?cs. well_shaped U pt_claim_1 k"
    by (simp add: plan_def prov_def ep_def pt_claim_1_def view_eval py_or_def)
  have e: "\<forall>k \<in> set ?cs. section_of k ''episode'' = PDict []"
    by (simp add: plan_def prov_def ep_def section_of_def)
  have r: "\<forall>k \<in> set ?cs. \<not> result_in_bundle (result_for U pt_claim_1 k)
                          \<and> result_term_count (result_for U pt_claim_1 k) = 0"
    using w e no_episode_rank(1,2) by blast
  then have no: "\<forall>a \<in> set ?cs. \<forall>b \<in> set ?cs.
                   \<not> outranks (result_for U pt_claim_1 a) (result_for U pt_claim_1 b)"
    by (simp add: outranks_def)
  from selector_pick [OF s _ w] obtain i where i: "i < length ?cs"
    "bundled_match_agent U pt_claim_1 knee_contract
       = evaluate_against_contract U pt_claim_1 (?cs ! i)"
    "\<forall>j<i. outranks (result_for U pt_claim_1 (?cs ! i)) (result_for U pt_claim_1 (?cs ! j))"
    by auto
  have "i = 0"
  proof (rule ccontr)
    assume "i \<noteq> 0"
    then have "0 < i" by simp
    from i(3) [rule_format, OF this]
    have o: "outranks (result_for U pt_claim_1 (?cs ! i)) (result_for U pt_claim_1 plan)"
      by simp
    from i(1) have mem: "?cs ! i \<in> set ?cs" by (intro nth_mem)
    have "plan \<in> set ?cs" by simp
    from no [rule_format, OF mem this] o show False by contradiction
  qed
  with i(2) have first: "bundled_match_agent U pt_claim_1 knee_contract
                           = evaluate_against_contract U pt_claim_1 plan"
    by simp
  from w have wp: "well_shaped U pt_claim_1 plan" by simp
  from e have ep0: "section_of plan ''episode'' = PDict []" by simp
  have "\<not> cpt_hit U pt_claim_1 plan \<and> \<not> spec_service_match U pt_claim_1 plan"
    using no_episode_rank(3,4) [OF wp ep0] by simp
  with evaluate_entries(1,4) [OF wp]
  have "result_field ''contract_id'' (evaluate_against_contract U pt_claim_1 plan)
          = Inr (PStr ''UNKNOWN'')"
    and "result_field ''is_in_bundle'' (evaluate_against_contract U pt_claim_1 plan)
          = Inr (PBool False)"
    by (simp_all add: plan_def section_of_def dict_of_def)
  moreover
  have "result_field ''contract_id'' (evaluate_against_contract U pt_claim_1 knee_contract)
          = Inr (PStr ''PC-1'')"
    using evaluate_entries(4) [OF well_shaped_pt_knee, of U]
    by (simp add: knee_contract_def section_of_def dict_of_def)
  moreover
  have "result_field ''is_in_bundle'' (evaluate_against_contract U pt_claim_1 knee_contract)
          = Inr (PBool True)"
    using evaluate_entries(1) [OF well_shaped_pt_knee, of U] cpt_hit_pt_knee [of U] by simp
  ultimately show ?thesis using first by simp
qed

section \<open>The Decision Mapper\<close>

lemma recommendation_entries:
  "result_field ''decision'' (recommendation_agent claim (PDict m))
     = Inr (PStr (if dict_get m ''status'' PNone = PStr ''skipped'' then ''PAY''
                  else if truthy (dict_get m ''is_in_bundle'' PNone) then ''REJECT'' else ''PAY''))"
  "result_field ''reason'' (recommendation_agent claim (PDict m))
     = Inr (PStr (if dict_get m ''status'' PNone = PStr ''skipped''
                  then ''No applicable bundled episode for this plan/claim.''
                  else if truthy (dict_get m ''is_in_bundle'' PNone)
                  then ''Service included in the episode bundle; bill under the episode.''
                  else ''Service not included in covered bundle terms.''))"
  "result_field ''confidence'' (recommendation_agent claim (PDict m)) = Inr (PFloat ''0.9'')"
  "result_field ''matched_terms'' (recommendation_agent claim (PDict m))
     = Inr (if dict_get m ''status'' PNone = PStr ''skipped'' then PList []
            else dict_get m ''matched_terms'' (PList []))"
  "result_field ''evidence'' (recommendation_agent claim (PDict m)) = Inr (dict_get m ''evidence'' PNone)"
  "result_field ''contract_id'' (recommendation_agent claim (PDict m))
     = Inr (dict_get m ''contract_id'' PNone)"
  "result_field ''plan_id'' (recommendation_agent claim (PDict m)) = Inr (dict_get m ''plan_id'' PNone)"
  "result_field ''plan_name'' (recommendation_agent claim (PDict m))
     = Inr (dict_get m ''plan_name'' PNone)"
  "result_field ''product_type'' (recommendation_agent claim (PDict m))
     = Inr (dict_get m ''product_type'' PNone)"
  "result_field ''episode_code'' (recommendation_agent claim (PDict m))
     = Inr (dict_get m ''episode_code'' PNone)"
  by (simp_all add: recommendation_agent_def Let_def dict_get_dict_set)

text \<open>
  C4. For every claim and every match result, in every branch the Recommendation's
  evidence and its contract and plan identifiers are those of the match result (\<open>None\<close>
  for one it lacks). Its matched terms are those of the match result (the empty list when
  it has none) in the in-bundle and the default branch; in the skipped branch they are the
  empty list.
\<close>

theorem recommendation_carries_match_fields:
  "result_field ''evidence'' (recommendation_agent claim (PDict m)) = result_field ''evidence'' (Inr (PDict m))
   \<and> result_field ''contract_id'' (recommendation_agent claim (PDict m))
       = result_field ''contract_id'' (Inr (PDict m))
   \<and> result_field ''plan_id'' (recommendation_agent claim (PDict m))
       = result_field ''plan_id'' (Inr (PDict m))
   \<and> result_field ''plan_name'' (recommendation_agent claim (PDict m))
       = result_field ''plan_name'' (Inr (PDict m))
   \<and> result_field ''product_type'' (recommendation_agent claim (PDict m))
       = result_field ''product_type'' (Inr (PDict m))
   \<and> result_field ''episode_code'' (recommendation_agent claim (PDict m))
       = result_field ''episode_code'' (Inr (PDict m))
   \<and> result_field ''matched_terms'' (recommendation_agent claim (PDict m))
       = Inr (if dict_get m ''status'' PNone = PStr ''skipped'' then PList []
              else dict_get m ''matched_terms'' (PList []))"
  by (simp add: recommendation_entries)

theorem recommendation_carries_match_fields_witness:
  "result_field ''contract_id'' (recommendation_agent pt_claim_1 bundled_match) = Inr (PStr ''PC-1'')
   \<and> result_field ''plan_id'' (recommendation_agent pt_claim_1 bundled_match) = Inr PNone
   \<and> result_field ''matched_terms'' (recommendation_agent pt_claim_1 bundled_match)
       = Inr (PList [PStr ''physical therapy'', PStr ''97110''])"
  using recommendation_carries_match_fields [of pt_claim_1
      "[(''status'', PStr ''ok''), (''contract_id'', PStr ''PC-1''), (''is_in_bundle'', PBool True),
        (''matched_terms'', PList [PStr ''physical therapy'', PStr ''97110''])]"]
  by (simp add: bundled_match_def)

text \<open>
  In the skipped branch the matched terms of the match result are not carried through.
\<close>

theorem recommendation_skipped_counterexample:
  "result_field ''matched_terms'' (Inr skipped_match) = Inr (PList [PStr ''97110''])
   \<and> result_field ''matched_terms'' (recommendation_agent pt_claim_1 skipped_match) = Inr (PList [])"
  by (simp add: skipped_match_def recommendation_entries)

text \<open>
  C5. For every claim and every match result the Decision Mapper returns decision PAY when
  the status is "skipped"; otherwise REJECT, with the reason that the service is included
  in the episode bundle, when \<open>is_in_bundle\<close> is true; otherwise PAY, with the reason that the
  service is not included in the covered bundle terms. The confidence is 0.9 in each
  case, and the decision is never DENY or ADJUST. The reasons are the sentences of the
  source, which begin with a capital and end with a full stop.
\<close>

theorem recommendation_decision_table:
  "result_field ''confidence'' (recommendation_agent claim (PDict m)) = Inr (PFloat ''0.9'')
   \<and> (dict_get m ''status'' PNone = PStr ''skipped'' \<longrightarrow>
        result_field ''decision'' (recommendation_agent claim (PDict m)) = Inr (PStr ''PAY'')
        \<and> result_field ''reason'' (recommendation_agent claim (PDict m))
            = Inr (PStr ''No applicable bundled episode for this plan/claim.''))
   \<and> (dict_get m ''status'' PNone \<noteq> PStr ''skipped'' \<and> truthy (dict_get m ''is_in_bundle'' PNone) \<longrightarrow>
        result_field ''decision'' (recommendation_agent claim (PDict m)) = Inr (PStr ''REJECT'')
        \<and> result_field ''reason'' (recommendation_agent claim (PDict m))
            = Inr (PStr ''Service included in the episode bundle; bill under the episode.''))
   \<and> (dict_get m ''status'' PNone \<noteq> PStr ''skipped'' \<and> \<not> truthy (dict_get m ''is_in_bundle'' PNone) \<longrightarrow>
        result_field ''decision'' (recommendation_agent claim (PDict m)) = Inr (PStr ''PAY'')
        \<and> result_field ''reason'' (recommendation_agent claim (PDict m))
            = Inr (PStr ''Service not included in covered bundle terms.''))
   \<and> result_field ''decision'' (recommendation_agent claim (PDict m)) \<noteq> Inr (PStr ''DENY'')
   \<and> result_field ''decision'' (recommendation_agent claim (PDict m)) \<noteq> Inr (PStr ''ADJUST'')"
  by (simp add: recommendation_entries)

theorem recommendation_decision_table_witness:
  "result_field ''decision'' (recommendation_agent pt_claim_1 skipped_match) = Inr (PStr ''PAY'')
   \<and> result_field ''decision'' (recommendation_agent pt_claim_1 bundled_match) = Inr (PStr ''REJECT'')
   \<and> result_field ''reason'' (recommendation_agent pt_claim_1 bundled_match)
       = Inr (PStr ''Service included in the episode bundle; bill under the episode.'')
   \<and> result_field ''decision'' (recommendation_agent pt_claim_1 unbundled_match) = Inr (PStr ''PAY'')
   \<and> result_field ''reason'' (recommendation_agent pt_claim_1 unbundled_match)
       = Inr (PStr ''Service not included in covered bundle terms.'')
   \<and> result_field ''confidence'' (recommendation_agent pt_claim_1 unbundled_match) = Inr (PFloat ''0.9'')"
  using recommendation_decision_table [of pt_claim_1
      "[(''status'', PStr ''skipped''), (''contract_id'', PStr ''PC-1''),
        (''matched_terms'', PList [PStr ''97110'']), (''evidence'', PStr ''Plan has no episodes.'')]"]
    recommendation_decision_table [of pt_claim_1
      "[(''status'', PStr ''ok''), (''contract_id'', PStr ''PC-1''), (''is_in_bundle'', PBool True),
        (''matched_terms'', PList [PStr ''physical therapy'', PStr ''97110''])]"]
    recommendation_decision_table [of pt_claim_1
      "[(''status'', PStr ''ok''), (''contract_id'', PStr ''PC-2''), (''is_in_bundle'', PBool False),
        (''matched_terms'', PList [])]"]
  by (simp add: skipped_match_def bundled_match_def unbundled_match_def)

section \<open>The Response Drafter's check of the decision\<close>

lemma invalid_decision_entries:
  "result_field ''status'' (Inr (invalid_decision_result reco d)) = Inr (PStr ''error'')"
  "result_field ''reason'' (Inr (invalid_decision_result reco d))
     = Inr (PStr ''missing_or_invalid_decision'')"
  "result_field ''decision'' (Inr (invalid_decision_result reco d))
     = Inr (if d \<noteq> [] then PStr d else PNone)"
  "result_field ''reco'' (Inr (invalid_decision_result reco d)) = Inr reco"
  by (simp_all add: invalid_decision_result_def Let_def)

lemma drafter_invalid:
  assumes "raw_decision reco override = Inr (PStr s)" and "py_upper U s \<notin> set VALID"
  shows "provider_response_agent U reco override = Inr (invalid_decision_result reco (py_upper U s))"
  using assms by (simp add: provider_response_agent_def Let_def)

text \<open>With a valid decision the Drafter, when it returns, returns a result of status "ok".\<close>

lemma drafter_valid:
  assumes "raw_decision reco override = Inr (PStr s)" and "py_upper U s \<in> set VALID"
    and "provider_response_agent U reco override = Inr r"
  shows "result_field ''status'' (Inr r) = Inr (PStr ''ok'')
         \<and> result_field ''decision'' (Inr r) = Inr (PStr (py_upper U s))"
  using assms
  by (auto simp: provider_response_agent_def Let_def bind_err_Inr dict_get_dict_set
      case_prod_beta)

lemma drafter_valid_not_error:
  assumes "raw_decision reco override = Inr (PStr s)" and "py_upper U s \<in> set VALID"
  shows "result_field ''status'' (provider_response_agent U reco override) \<noteq> Inr (PStr ''error'')"
proof (cases "provider_response_agent U reco override")
  case (Inl e)
  then show ?thesis by simp
next
  case (Inr r)
  from drafter_valid [OF assms Inr] show ?thesis by (simp add: Inr)
qed

lemma raw_decision_of_field:
  "dict_get d ''decision'' PNone = PStr s \<Longrightarrow> s \<noteq> [] \<Longrightarrow> raw_decision (PDict d) PNone = Inr (PStr s)"
  by (simp add: raw_decision_def)

lemma raw_decision_absent:
  "\<not> truthy (dict_get d ''decision'' PNone) \<Longrightarrow> \<not> truthy (dict_get d ''outcome'' PNone)
     \<Longrightarrow> raw_decision (PDict d) PNone = Inr (PStr [])"
  by (simp add: raw_decision_def py_or_def)

text \<open>
  C9. The decision the Drafter checks is the first truthy value among the \<open>decision\<close>
  argument, the record's \<open>decision\<close> and the record's \<open>outcome\<close>, and the empty string when
  there is none. When it is a string whose upper-case form is not one of PAY, REJECT,
  DENY, ADJUST, the Drafter returns the error result: status "error", reason
  "missing_or_invalid_decision", and as decision the upper-case text it was given, or
  \<open>None\<close> when that is empty; no decision is made up. When the upper-case form is one of the
  four, in whatever letter case it came, the Drafter does not return that error.
\<close>

theorem drafter_rejects_invalid_decision:
  assumes "raw_decision reco override = Inr (PStr s)"
  shows "(py_upper U s \<notin> set VALID \<longrightarrow>
            result_field ''status'' (provider_response_agent U reco override) = Inr (PStr ''error'')
            \<and> result_field ''reason'' (provider_response_agent U reco override)
                = Inr (PStr ''missing_or_invalid_decision'')
            \<and> result_field ''decision'' (provider_response_agent U reco override)
                = Inr (if py_upper U s \<noteq> [] then PStr (py_upper U s) else PNone))
         \<and> (py_upper U s \<in> set VALID \<longrightarrow>
            result_field ''status'' (provider_response_agent U reco override) \<noteq> Inr (PStr ''error''))"
  using drafter_invalid [OF assms] drafter_valid_not_error [OF assms]
  by (simp add: invalid_decision_entries)

lemma upper_samples:
  assumes "ascii_conform U"
  shows "py_upper U ''maybe'' = ''MAYBE''" and "py_upper U ''reject'' = ''REJECT''"
    and "py_upper U ''pay'' = ''PAY''" and "py_upper U [] = []"
  using assms by (simp_all add: conform_upper upper_char_eval)

theorem drafter_rejects_invalid_decision_witness:
  "raw_decision maybe_reco PNone = Inr (PStr ''maybe'')
   \<and> result_field ''status'' (provider_response_agent ascii_tables maybe_reco PNone)
       = Inr (PStr ''error'')
   \<and> result_field ''decision'' (provider_response_agent ascii_tables maybe_reco PNone)
       = Inr (PStr ''MAYBE'')
   \<and> raw_decision reject_reco PNone = Inr (PStr ''reject'')
   \<and> result_field ''status'' (provider_response_agent ascii_tables reject_reco PNone)
       \<noteq> Inr (PStr ''error'')
   \<and> raw_decision (PDict []) PNone = Inr (PStr [])
   \<and> result_field ''decision'' (provider_response_agent ascii_tables (PDict []) PNone) = Inr PNone"
proof -
  note u = upper_samples [OF ascii_tables_conform]
  have m: "raw_decision maybe_reco PNone = Inr (PStr ''maybe'')"
    by (simp add: maybe_reco_def raw_decision_def)
  have r: "raw_decision reject_reco PNone = Inr (PStr ''reject'')"
    by (simp add: reject_reco_def raw_decision_def)
  have e: "raw_decision (PDict []) PNone = Inr (PStr [])"
    by (simp add: raw_decision_def py_or_def)
  from drafter_rejects_invalid_decision [OF m, of ascii_tables]
    drafter_rejects_invalid_decision [OF r, of ascii_tables]
    drafter_rejects_invalid_decision [OF e, of ascii_tables] m r e
  show ?thesis by (simp add: u VALID_def)
qed

text \<open>
  A record with no \<open>decision\<close> of its own is not rejected when it carries an \<open>outcome\<close>: the
  Drafter takes the outcome for the decision and drafts the message.
\<close>

theorem drafter_outcome_counterexample:
  "\<not> spec_decision_valid ascii_tables outcome_only_reco
   \<and> result_field ''status'' (provider_response_agent ascii_tables outcome_only_reco PNone)
       = Inr (PStr ''ok'')
   \<and> result_field ''decision'' (provider_response_agent ascii_tables outcome_only_reco PNone)
       = Inr (PStr ''PAY'')"
proof -
  let ?U = ascii_tables
  note u = upper_samples(3) [OF ascii_tables_conform]
  have "\<not> spec_decision_valid ?U outcome_only_reco"
    by (simp add: spec_decision_valid_def outcome_only_reco_def)
  moreover have "list_to_english ?U (PList []) = Inr []"
    by (simp add: list_to_english_def py_or_def)
  then have "\<exists>d. provider_response_agent ?U outcome_only_reco PNone = Inr (PDict d)
      \<and> dict_get d ''status'' PNone = PStr ''ok'' \<and> dict_get d ''decision'' PNone = PStr ''PAY''"
    by (simp add: provider_response_agent_def outcome_only_reco_def raw_decision_def py_or_def u
        VALID_def Let_def dict_get_dict_set py_str_def)
  ultimately show ?thesis by auto
qed

end
